theory Spec2Isabelle
  imports Main "HOL-Library.Sublist"
begin

section \<open>Characters, C strings and the string helpers the console uses\<close>

definition NUL :: char where "NUL = CHR 0x00"
definition LF :: char where "LF = CHR 0x0A"
definition CR :: char where "CR = CHR 0x0D"

text \<open>
  \<^verbatim>\<open>str.c_str()\<close> handed to \<^verbatim>\<open>printf("%s")\<close>: the characters up to the first NUL.
\<close>

definition c_str :: "string \<Rightarrow> string" where
  "c_str s = takeWhile (\<lambda>ch. ch \<noteq> NUL) s"

text \<open>
  Modelled from the spec: \<^verbatim>\<open>stringReplaceInPlace\<close> of strlib, which is not under src/.
  It replaces the occurrences of \<open>old\<close> from left to right, resuming the search behind
  each replacement. The console calls it with a non-empty \<open>old\<close> only; for the empty
  pattern the model returns the string as it is.
\<close>

fun stringReplaceInPlace :: "string \<Rightarrow> string \<Rightarrow> string \<Rightarrow> string" where
  "stringReplaceInPlace old new s =
     (if old = [] \<or> s = [] then s
      else if prefix old s then new @ stringReplaceInPlace old new (drop (length old) s)
      else hd s # stringReplaceInPlace old new (tl s))"

declare stringReplaceInPlace.simps [simp del]

text \<open>
  The line endings as the spec words them: a carriage return followed by a line feed
  collapses to one line feed, every other carriage return becomes a line feed.
\<close>

fun normalize_line_endings :: "string \<Rightarrow> string" where
  "normalize_line_endings [] = []"
| "normalize_line_endings [c] = (if c = CR then [LF] else [c])"
| "normalize_line_endings (c # d # cs) =
     (if c = CR \<and> d = LF then LF # normalize_line_endings cs
      else if c = CR then LF # normalize_line_endings (d # cs)
      else c # normalize_line_endings (d # cs))"

text \<open>\<^verbatim>\<open>std::string::find(pat)\<close>: the first index where \<open>pat\<close> occurs, \<open>None\<close> for npos.\<close>

fun string_find :: "string \<Rightarrow> string \<Rightarrow> nat option" where
  "string_find [] pat = (if pat = [] then Some 0 else None)"
| "string_find (x # xs) pat =
     (if prefix pat (x # xs) then Some 0 else map_option Suc (string_find xs pat))"

text \<open>The number of positions of \<open>s\<close> at which \<open>pat\<close> occurs.\<close>

fun occurrences :: "string \<Rightarrow> string \<Rightarrow> nat" where
  "occurrences [] pat = (if pat = [] then 1 else 0)"
| "occurrences (x # xs) pat = (if prefix pat (x # xs) then 1 else 0) + occurrences xs pat"

text \<open>
  \<^verbatim>\<open>isprint\<close> of the C library in the default "C" locale, on the \<^verbatim>\<open>int\<close> a key arrives as.
  A \<^verbatim>\<open>char\<close> handed to an \<^verbatim>\<open>int\<close> parameter is promoted as a signed char;
  \<^verbatim>\<open>(char) key\<close> keeps the low eight bits.
\<close>

definition isprint :: "int \<Rightarrow> bool" where
  "isprint key \<longleftrightarrow> 32 \<le> key \<and> key \<le> 126"

definition char_to_int :: "char \<Rightarrow> int" where
  "char_to_int ch = (if (of_char ch :: int) < 128 then of_char ch else of_char ch - 256)"

definition int_to_char :: "int \<Rightarrow> char" where
  "int_to_char key = char_of key"

definition charToString :: "char \<Rightarrow> string" where
  "charToString ch = [ch]"

text \<open>
  \<^verbatim>\<open>std::string::insert(pos, str)\<close> throws \<^verbatim>\<open>std::out_of_range\<close> when \<open>pos\<close> is beyond the
  length (a negative \<^verbatim>\<open>int\<close> converts to a huge \<^verbatim>\<open>size_t\<close>): \<open>None\<close> is the exception.
  \<^verbatim>\<open>std::string::erase(pos, n)\<close> is called under a range check in every place.
\<close>

definition string_insert :: "string \<Rightarrow> int \<Rightarrow> string \<Rightarrow> string option" where
  "string_insert s pos str =
     (if 0 \<le> pos \<and> pos \<le> int (length s)
      then Some (take (nat pos) s @ str @ drop (nat pos) s) else None)"

definition string_erase :: "string \<Rightarrow> nat \<Rightarrow> nat \<Rightarrow> string" where
  "string_erase s pos n = take pos s @ drop (pos + n) s"

section \<open>The text surface\<close>

text \<open>
  Modelled from the spec: the text surface (\<^verbatim>\<open>GTextArea\<close> over Qt's \<^verbatim>\<open>QTextEdit\<close>,
  \<^verbatim>\<open>QTextCursor\<close> and \<^verbatim>\<open>QTextFragment\<close>), which is not under src/. The spec lists what it
  exposes: the text, the selection range and the cursor index, insertion and deletion at a
  character index, appending text tagged with a colour and style. The document is the
  sequence of its characters, each with its format (colour, bold); the widget's cursor is
  a position and an anchor, and the selection lies between them. A line feed separates
  two blocks; a fragment is a maximal run of one format inside a block.
\<close>

type_synonym fmt = "string \<times> bool"

record textarea =
  ta_doc :: "(char \<times> fmt) list"
  ta_pos :: nat
  ta_anchor :: nat

definition getText :: "textarea \<Rightarrow> string" where
  "getText ta = map fst (ta_doc ta)"

definition clearText :: "textarea \<Rightarrow> textarea" where
  "clearText ta = ta\<lparr>ta_doc := [], ta_pos := 0, ta_anchor := 0\<rparr>"

definition moveCursorToEnd :: "textarea \<Rightarrow> textarea" where
  "moveCursorToEnd ta = ta\<lparr>ta_pos := length (ta_doc ta), ta_anchor := length (ta_doc ta)\<rparr>"

text \<open>Appending formatted text leaves the cursor at the end of the document.\<close>

definition appendFormattedText :: "string \<Rightarrow> fmt \<Rightarrow> textarea \<Rightarrow> textarea" where
  "appendFormattedText text f ta =
     moveCursorToEnd (ta\<lparr>ta_doc := ta_doc ta @ map (\<lambda>ch. (ch, f)) text\<rparr>)"

definition selectionStart :: "textarea \<Rightarrow> nat" where
  "selectionStart ta = min (ta_pos ta) (ta_anchor ta)"

definition selectionEnd :: "textarea \<Rightarrow> nat" where
  "selectionEnd ta = max (ta_pos ta) (ta_anchor ta)"

text \<open>
  Removing the characters \<open>[s, e)\<close> of the document; a cursor behind the removed range
  moves left with the text, a cursor inside it lands at \<open>s\<close>.
\<close>

definition adjust_removed :: "nat \<Rightarrow> nat \<Rightarrow> nat \<Rightarrow> nat" where
  "adjust_removed s e p = (if p \<le> s then p else if p \<le> e then s else p - (e - s))"

definition doc_remove :: "nat \<Rightarrow> nat \<Rightarrow> textarea \<Rightarrow> textarea" where
  "doc_remove s e ta =
     \<lparr>ta_doc = take s (ta_doc ta) @ drop e (ta_doc ta),
      ta_pos = adjust_removed s e (ta_pos ta),
      ta_anchor = adjust_removed s e (ta_anchor ta)\<rparr>"

text \<open>
  The operations of a \<^verbatim>\<open>QTextCursor\<close> that is afterwards installed with
  \<^verbatim>\<open>setTextCursor\<close>: they act on the document and on the widget's cursor at once.
  Inserted text takes the format of the character before the cursor.
\<close>

definition default_fmt :: fmt where
  "default_fmt = (''black'', False)"

definition charFormat :: "textarea \<Rightarrow> fmt" where
  "charFormat ta =
     (if ta_pos ta = 0 \<or> length (ta_doc ta) < ta_pos ta
      then (case ta_doc ta of [] \<Rightarrow> default_fmt | x # _ \<Rightarrow> snd x)
      else snd (ta_doc ta ! (ta_pos ta - 1)))"

definition removeSelectedText :: "textarea \<Rightarrow> textarea" where
  "removeSelectedText ta =
     \<lparr>ta_doc = take (selectionStart ta) (ta_doc ta) @ drop (selectionEnd ta) (ta_doc ta),
      ta_pos = selectionStart ta, ta_anchor = selectionStart ta\<rparr>"

definition insertText :: "string \<Rightarrow> textarea \<Rightarrow> textarea" where
  "insertText text ta =
     (let f = charFormat ta; ta1 = removeSelectedText ta; p = ta_pos ta1
      in \<lparr>ta_doc = take p (ta_doc ta1) @ map (\<lambda>ch. (ch, f)) text @ drop p (ta_doc ta1),
          ta_pos = min p (length (ta_doc ta1)) + length text,
          ta_anchor = min p (length (ta_doc ta1)) + length text\<rparr>)"

definition moveRight :: "nat \<Rightarrow> textarea \<Rightarrow> textarea" where
  "moveRight n ta =
     ta\<lparr>ta_pos := min (ta_pos ta + n) (length (ta_doc ta)),
        ta_anchor := min (ta_pos ta + n) (length (ta_doc ta))\<rparr>"

definition moveLeft :: "nat \<Rightarrow> textarea \<Rightarrow> textarea" where
  "moveLeft n ta = ta\<lparr>ta_pos := ta_pos ta - n, ta_anchor := ta_pos ta - n\<rparr>"

definition deletePreviousChar :: "textarea \<Rightarrow> textarea" where
  "deletePreviousChar ta =
     (if ta_pos ta \<noteq> ta_anchor ta then removeSelectedText ta
      else if ta_pos ta = 0 then ta
      else \<lparr>ta_doc = take (ta_pos ta - 1) (ta_doc ta) @ drop (ta_pos ta) (ta_doc ta),
            ta_pos = ta_pos ta - 1, ta_anchor = ta_pos ta - 1\<rparr>)"

text \<open>
  The range a cursor at \<open>(pos, anchor)\<close> deletes with \<^verbatim>\<open>deletePreviousChar\<close> and with
  \<^verbatim>\<open>deleteChar\<close>: its selection when it has one, else the character before or behind it.
\<close>

definition deletePreviousChar_range :: "nat \<times> nat \<Rightarrow> nat \<Rightarrow> nat \<times> nat" where
  "deletePreviousChar_range cur len =
     (case cur of (pos, anchor) \<Rightarrow>
        if pos \<noteq> anchor then (min pos anchor, max pos anchor)
        else if pos = 0 then (0, 0) else (pos - 1, pos))"

definition deleteChar_range :: "nat \<times> nat \<Rightarrow> nat \<Rightarrow> nat \<times> nat" where
  "deleteChar_range cur len =
     (case cur of (pos, anchor) \<Rightarrow>
        if pos \<noteq> anchor then (min pos anchor, max pos anchor)
        else if len \<le> pos then (pos, pos) else (pos, pos + 1))"

subsection \<open>Blocks and fragments\<close>

fun split_blocks :: "(char \<times> fmt) list \<Rightarrow> (char \<times> fmt) list list" where
  "split_blocks [] = [[]]"
| "split_blocks (x # xs) =
     (if fst x = LF then [] # split_blocks xs
      else (case split_blocks xs of [] \<Rightarrow> [[x]] | b # bs \<Rightarrow> (x # b) # bs))"

fun block_positions :: "nat \<Rightarrow> (char \<times> fmt) list list \<Rightarrow> (nat \<times> (char \<times> fmt) list) list" where
  "block_positions p [] = []"
| "block_positions p (b # bs) = (p, b) # block_positions (p + length b + 1) bs"

fun fragments :: "(char \<times> fmt) list \<Rightarrow> (string \<times> fmt) list" where
  "fragments [] = []"
| "fragments (x # xs) =
     (case fragments xs of
        [] \<Rightarrow> [([fst x], snd x)]
      | (t, f) # rest \<Rightarrow>
          if f = snd x then (fst x # t, f) # rest else ([fst x], snd x) # (t, f) # rest)"

fun fragment_positions :: "nat \<Rightarrow> (string \<times> fmt) list \<Rightarrow> (nat \<times> string) list" where
  "fragment_positions p [] = []"
| "fragment_positions p ((t, f) # rest) = (p, t) # fragment_positions (p + length t) rest"

text \<open>
  The two loops of \<^verbatim>\<open>getUserInputFragment\<close>: over the fragments of one block from its
  first, and over the blocks from the last one backwards. A fragment is its position and
  its length; \<open>None\<close> is the invalid fragment.
\<close>

fun find_fragment :: "(nat \<times> string) list \<Rightarrow> string \<Rightarrow> (nat \<times> nat) option" where
  "find_fragment [] buf = None"
| "find_fragment ((p, fragText) # others) buf =
     (if fragText = buf then Some (p, length fragText) else find_fragment others buf)"

fun search_blocks :: "(nat \<times> (char \<times> fmt) list) list \<Rightarrow> string \<Rightarrow> (nat \<times> nat) option" where
  "search_blocks [] buf = None"
| "search_blocks ((p, block) # previous) buf =
     (case find_fragment (fragment_positions p (fragments block)) buf of
        Some frag \<Rightarrow> Some frag
      | None \<Rightarrow> search_blocks previous buf)"

section \<open>The console window\<close>

text \<open>
  The members of \<^verbatim>\<open>GConsoleWindow\<close> that the console pipeline reads and writes, under
  their names (\<open>m_\<close> for the leading underscore). \<open>window_title\<close> is the title kept by
  the base class \<^verbatim>\<open>GWindow\<close>, \<open>cin_eof\<close> the eofbit of \<^verbatim>\<open>std::cin\<close>, and \<open>proc_stdout\<close> and
  \<open>proc_stderr\<close> are everything written to the process streams with \<^verbatim>\<open>printf\<close>.
\<close>

record console =
  m_textArea :: textarea
  m_clearEnabled :: bool
  m_echo :: bool
  m_locked :: bool
  m_promptActive :: bool
  m_shutdown :: bool
  m_commandHistoryIndex :: int
  m_errorColor :: string
  m_outputColor :: string
  m_inputBuffer :: string
  m_allOutputBuffer :: string
  m_inputCommandHistory :: "string list"
  m_inputLines :: "string list"
  m_inputScript :: "string list"
  window_title :: string
  cin_eof :: bool
  proc_stdout :: string
  proc_stderr :: string

definition ALLOW_RICH_INPUT_EDITING :: bool where "ALLOW_RICH_INPUT_EDITING = True"
definition DEFAULT_WINDOW_TITLE :: string where "DEFAULT_WINDOW_TITLE = ''Console''"
definition DEFAULT_ERROR_COLOR :: string where "DEFAULT_ERROR_COLOR = ''red''"
definition DEFAULT_OUTPUT_COLOR :: string where "DEFAULT_OUTPUT_COLOR = ''black''"
definition USER_INPUT_COLOR :: string where "USER_INPUT_COLOR = ''blue''"
definition PROGRAM_COMPLETED_TITLE_SUFFIX :: string where
  "PROGRAM_COMPLETED_TITLE_SUFFIX = '' [completed]''"
definition console_cleared_msg :: string where
  "console_cleared_msg = ''==================== (console cleared) ====================''"

text \<open>
  Modelled from the spec: the key code \<^verbatim>\<open>GEvent::BACKSPACE_KEY\<close> of gevent.h, which is not
  under src/; \<^verbatim>\<open>processBackspace\<close> only compares its argument with it.
\<close>

definition BACKSPACE_KEY :: int where "BACKSPACE_KEY = 8"
definition DELETE_KEY :: int where "DELETE_KEY = 127"

text \<open>The console the constructor builds (no configuration file found).\<close>

definition GConsoleWindow :: console where
  "GConsoleWindow =
     \<lparr>m_textArea = \<lparr>ta_doc = [], ta_pos = 0, ta_anchor = 0\<rparr>,
      m_clearEnabled = True, m_echo = False, m_locked = False, m_promptActive = False,
      m_shutdown = False, m_commandHistoryIndex = - 1, m_errorColor = [],
      m_outputColor = [], m_inputBuffer = [], m_allOutputBuffer = [],
      m_inputCommandHistory = [], m_inputLines = [], m_inputScript = [],
      window_title = DEFAULT_WINDOW_TITLE, cin_eof = False,
      proc_stdout = [], proc_stderr = []\<rparr>"

definition getAllOutput :: "console \<Rightarrow> string" where
  "getAllOutput c = m_allOutputBuffer c"

definition getErrorColor :: "console \<Rightarrow> string" where
  "getErrorColor c = (if m_errorColor c = [] then DEFAULT_ERROR_COLOR else m_errorColor c)"

definition getOutputColor :: "console \<Rightarrow> string" where
  "getOutputColor c = (if m_outputColor c = [] then DEFAULT_OUTPUT_COLOR else m_outputColor c)"

definition getUserInputFragment :: "console \<Rightarrow> (nat \<times> nat) option" where
  "getUserInputFragment c =
     (if m_inputBuffer c \<noteq> []
      then search_blocks (rev (block_positions 0 (split_blocks (ta_doc (m_textArea c)))))
             (m_inputBuffer c)
      else None)"

definition getUserInputStart :: "console \<Rightarrow> int" where
  "getUserInputStart c =
     (case getUserInputFragment c of
        Some (fragPos, fragLen) \<Rightarrow> int fragPos
      | None \<Rightarrow> if m_promptActive c then int (length (getText (m_textArea c))) else - 1)"

definition getUserInputEnd :: "console \<Rightarrow> int" where
  "getUserInputEnd c =
     (case getUserInputFragment c of
        Some (fragPos, fragLen) \<Rightarrow> int fragPos + int fragLen
      | None \<Rightarrow> if m_promptActive c then int (length (getText (m_textArea c))) else - 1)"

definition isCursorInUserInputArea :: "console \<Rightarrow> bool" where
  "isCursorInUserInputArea c =
     (let cursorPosition = int (ta_pos (m_textArea c));
          userInputStart = getUserInputStart c;
          userInputEnd = getUserInputEnd c
      in m_promptActive c \<and> userInputStart \<le> cursorPosition \<and> cursorPosition \<le> userInputEnd)"

subsection \<open>Output\<close>

text \<open>
  \<^verbatim>\<open>print\<close> in its two halves: what the calling thread does (the raw echo), and the
  closure it posts to the GUI thread, which appends the cleaned text to the output log and
  to the transcript while it holds the output mutex. \<open>print\<close> runs the closure at once.
\<close>

definition print_echo :: "string \<Rightarrow> bool \<Rightarrow> console \<Rightarrow> console" where
  "print_echo str isStdErr c =
     (if m_echo c then
        (if isStdErr then c\<lparr>proc_stderr := proc_stderr c @ c_str str\<rparr>
         else c\<lparr>proc_stdout := proc_stdout c @ c_str str\<rparr>)
      else c)"

definition clean_line_breaks :: "string \<Rightarrow> string" where
  "clean_line_breaks str =
     stringReplaceInPlace [CR] [LF] (stringReplaceInPlace [CR, LF] [LF] str)"

definition print_closure :: "string \<Rightarrow> bool \<Rightarrow> console \<Rightarrow> console" where
  "print_closure strToPrint isStdErr c =
     c\<lparr>m_allOutputBuffer := m_allOutputBuffer c @ strToPrint,
       m_textArea :=
         moveCursorToEnd
           (appendFormattedText strToPrint
              (if isStdErr then getErrorColor c else getOutputColor c, False)
              (m_textArea c))\<rparr>"

definition print :: "string \<Rightarrow> bool \<Rightarrow> console \<Rightarrow> console" where
  "print str isStdErr c =
     (if m_shutdown c then c
      else print_closure (clean_line_breaks str) isStdErr (print_echo str isStdErr c))"

definition println :: "string \<Rightarrow> bool \<Rightarrow> console \<Rightarrow> console" where
  "println str isStdErr c = print (str @ [LF]) isStdErr c"

definition clearConsole :: "console \<Rightarrow> console" where
  "clearConsole c =
     (if m_shutdown c then c
      else if m_clearEnabled c then
        c\<lparr>proc_stdout := proc_stdout c @ c_str console_cleared_msg @ [LF],
          m_textArea := clearText (m_textArea c)\<rparr>
      else println console_cleared_msg False c)"

definition setClearEnabled :: "bool \<Rightarrow> console \<Rightarrow> console" where
  "setClearEnabled clearEnabled c =
     (if m_locked c \<or> m_shutdown c then c else c\<lparr>m_clearEnabled := clearEnabled\<rparr>)"

definition setEcho :: "bool \<Rightarrow> console \<Rightarrow> console" where
  "setEcho echo c = (if m_locked c \<or> m_shutdown c then c else c\<lparr>m_echo := echo\<rparr>)"

definition setLocked :: "bool \<Rightarrow> console \<Rightarrow> console" where
  "setLocked locked c = c\<lparr>m_locked := locked\<rparr>"

definition setTitle :: "string \<Rightarrow> console \<Rightarrow> console" where
  "setTitle title c = c\<lparr>window_title := title\<rparr>"

definition shutdown :: "console \<Rightarrow> console" where
  "shutdown c =
     (let c1 = c\<lparr>m_shutdown := True\<rparr>; title = window_title c1
      in if string_find title PROGRAM_COMPLETED_TITLE_SUFFIX = None
         then setTitle (title @ PROGRAM_COMPLETED_TITLE_SUFFIX) c1 else c1)"

definition close :: "console \<Rightarrow> console" where
  "close c = shutdown c"

subsection \<open>Input\<close>

text \<open>
  \<^verbatim>\<open>loadInputScript(filename)\<close>; the lines of the file are the argument, \<open>None\<close> when the
  name is empty or no such file exists.
\<close>

definition loadInputScript :: "string list option \<Rightarrow> console \<Rightarrow> console" where
  "loadInputScript file c =
     (case file of None \<Rightarrow> c | Some lines \<Rightarrow> c\<lparr>m_inputScript := [] @ lines\<rparr>)"

definition processEof :: "console \<Rightarrow> console" where
  "processEof c = (if m_inputBuffer c = [] then c\<lparr>cin_eof := True\<rparr> else c)"

definition processUserInputEnterKey :: "console \<Rightarrow> console" where
  "processUserInputEnterKey c =
     (if m_shutdown c then c
      else
        c\<lparr>m_inputLines := m_inputLines c @ [m_inputBuffer c],
          m_inputCommandHistory := m_inputCommandHistory c @ [m_inputBuffer c],
          m_commandHistoryIndex := int (length (m_inputCommandHistory c @ [m_inputBuffer c])),
          m_allOutputBuffer := m_allOutputBuffer c @ m_inputBuffer c @ [LF],
          m_inputBuffer := [],
          m_textArea := appendFormattedText [LF] (USER_INPUT_COLOR, False) (m_textArea c)\<rparr>)"

text \<open>
  \<^verbatim>\<open>processUserInputKey\<close>. \<open>None\<close> is the \<^verbatim>\<open>std::out_of_range\<close> that
  \<^verbatim>\<open>_inputBuffer.insert\<close> throws for an index beyond the buffer. The fragment keeps the
  position it was found at, also after the selection inside it was removed.
\<close>

definition processUserInputKey :: "int \<Rightarrow> console \<Rightarrow> console option" where
  "processUserInputKey key c =
     (if m_shutdown c then Some c
      else if key \<noteq> 0 \<and> isprint key then
        (let keyStr = charToString (int_to_char key);
             frag = getUserInputFragment c
         in if ALLOW_RICH_INPUT_EDITING \<and> isCursorInUserInputArea c \<and> frag \<noteq> None then
              (let cursor = m_textArea c;
                   fragStart = int (fst (the frag));
                   selStart = int (selectionStart cursor) - fragStart;
                   selEnd = int (selectionEnd cursor) - fragStart;
                   removing = (selEnd > selStart \<and> selStart \<ge> 0
                               \<and> selEnd \<le> int (length (m_inputBuffer c)));
                   cursor1 = (if removing then removeSelectedText cursor else cursor);
                   buf1 = (if removing
                           then string_erase (m_inputBuffer c) (nat selStart) (nat (selEnd - selStart))
                           else m_inputBuffer c);
                   cursorPosition = int (ta_pos cursor1);
                   indexToInsert = cursorPosition - int (fst (the frag));
                   cursor2 =
                     (if indexToInsert = 0 then
                        moveRight 1 (deletePreviousChar (moveLeft 2
                          (insertText (keyStr @ take 1 buf1) (moveRight 1 cursor1))))
                      else insertText keyStr cursor1)
               in case string_insert buf1 indexToInsert keyStr of
                    None \<Rightarrow> None
                  | Some buf2 \<Rightarrow> Some (c\<lparr>m_inputBuffer := buf2, m_textArea := cursor2\<rparr>))
            else
              Some (c\<lparr>m_inputBuffer := m_inputBuffer c @ keyStr,
                      m_textArea := appendFormattedText keyStr (USER_INPUT_COLOR, True)
                                      (m_textArea c)\<rparr>))
      else Some c)"

text \<open>The loop of \<^verbatim>\<open>setUserInput\<close> and of \<^verbatim>\<open>clipboardPaste\<close> over the characters.\<close>

fun processUserInputKeys :: "string \<Rightarrow> console \<Rightarrow> console option" where
  "processUserInputKeys [] c = Some c"
| "processUserInputKeys (ch # rest) c =
     (case processUserInputKey (char_to_int ch) c of
        None \<Rightarrow> None
      | Some c' \<Rightarrow> processUserInputKeys rest c')"

definition setUserInput :: "string \<Rightarrow> console \<Rightarrow> console option" where
  "setUserInput userInput c =
     (let ta = m_textArea c;
          ta1 = (case getUserInputFragment c of
                   None \<Rightarrow> ta
                 | Some (fragPos, fragLen) \<Rightarrow>
                     removeSelectedText
                       (ta\<lparr>ta_pos := min (min fragPos (length (ta_doc ta)) + fragLen)
                                        (length (ta_doc ta)),
                           ta_anchor := min fragPos (length (ta_doc ta))\<rparr>))
      in processUserInputKeys userInput (c\<lparr>m_textArea := ta1, m_inputBuffer := []\<rparr>))"

text \<open>
  \<^verbatim>\<open>_commandHistoryIndex\<close> and \<^verbatim>\<open>delta\<close> are C++ \<^verbatim>\<open>int\<close>s of 32 bits. \<open>int_wrap\<close> is the
  value the compiled \<^verbatim>\<open>+=\<close> leaves for a mathematical sum: the sum itself when an
  \<^verbatim>\<open>int\<close> holds it, and the sum wrapped around modulo \<open>2 ^ 32\<close> when it overflows.
\<close>

definition INT_MIN :: int where
  "INT_MIN = - 2147483648"

definition INT_MAX :: int where
  "INT_MAX = 2147483647"

definition int_wrap :: "int \<Rightarrow> int" where
  "int_wrap x = (x + 2147483648) mod 4294967296 - 2147483648"

definition processCommandHistory :: "int \<Rightarrow> console \<Rightarrow> console option" where
  "processCommandHistory delta c =
     (let index0 = int_wrap (m_commandHistoryIndex c + delta);
          index1 = max (- 1) index0;
          index2 = min index1 (int (length (m_inputCommandHistory c)));
          oldCommand =
            (if 0 \<le> index2 \<and> index2 < int (length (m_inputCommandHistory c))
             then m_inputCommandHistory c ! nat index2 else [])
      in setUserInput oldCommand (c\<lparr>m_commandHistoryIndex := index2\<rparr>))"

definition processBackspace :: "int \<Rightarrow> console \<Rightarrow> console" where
  "processBackspace key c =
     (if m_shutdown c \<or> \<not> m_promptActive c then c
      else
        (let isBackspace = (key = BACKSPACE_KEY);
             frag = getUserInputFragment c
         in if m_inputBuffer c \<noteq> [] \<and> frag \<noteq> None then
              (let fragPos = fst (the frag); fragLen = snd (the frag);
                   oldCursorPosition = int (ta_pos (m_textArea c));
                   len = int (length (m_inputBuffer c));
                   userInputIndexMin = int fragPos;
                   userInputIndexMax = int fragPos + int fragLen - (if isBackspace then 0 else 1);
                   inside = (oldCursorPosition \<ge> userInputIndexMin
                             \<and> oldCursorPosition < userInputIndexMax);
                   indexToDelete =
                     (if inside then oldCursorPosition - int fragPos - (if isBackspace then 1 else 0)
                      else len - 1);
                   cursor =
                     (if inside then (ta_pos (m_textArea c), ta_anchor (m_textArea c))
                      else (min (fragPos + fragLen) (length (ta_doc (m_textArea c))),
                            min (fragPos + fragLen) (length (ta_doc (m_textArea c)))))
               in if indexToDelete \<ge> 0 \<and> indexToDelete < len then
                    (let range =
                           (if isBackspace \<or> indexToDelete = len - 1
                            then deletePreviousChar_range cursor (length (ta_doc (m_textArea c)))
                            else deleteChar_range cursor (length (ta_doc (m_textArea c))))
                     in c\<lparr>m_textArea := doc_remove (fst range) (snd range) (m_textArea c),
                          m_inputBuffer := string_erase (m_inputBuffer c) (nat indexToDelete) 1\<rparr>)
                  else c)
            else c))"

text \<open>
  \<^verbatim>\<open>clipboardPaste\<close>; the text of the clipboard is the argument.
\<close>

fun clipboardPaste_loop :: "string \<Rightarrow> console \<Rightarrow> console option" where
  "clipboardPaste_loop [] c = Some c"
| "clipboardPaste_loop (ch # rest) c =
     (if ch = CR then clipboardPaste_loop rest c
      else if ch = LF then clipboardPaste_loop rest (processUserInputEnterKey c)
      else (case processUserInputKey (char_to_int ch) c of
              None \<Rightarrow> None
            | Some c' \<Rightarrow> clipboardPaste_loop rest c'))"

definition clipboardPaste :: "string \<Rightarrow> console \<Rightarrow> console option" where
  "clipboardPaste clipboardText c =
     (if m_shutdown c then Some c
      else
        (let ta1 = (m_textArea c)\<lparr>ta_anchor := ta_pos (m_textArea c)\<rparr>;
             c1 = c\<lparr>m_textArea := ta1\<rparr>;
             c2 = (if \<not> isCursorInUserInputArea c1
                   then c1\<lparr>m_textArea := moveCursorToEnd ta1\<rparr> else c1)
         in clipboardPaste_loop clipboardText c2))"

subsection \<open>Reading a line\<close>

text \<open>
  \<^verbatim>\<open>readLine\<close> in its steps: what it does before the loop, one round of the loop body
  (the line it read, if any), and what it does behind the loop. The closure that echoes a
  script line runs at once. A round that reads nothing sleeps and leaves the console as
  it is, so that a read on a console nobody else touches polls for ever: the loop is a
  partial function, and \<open>None\<close> is the read that never returns.
\<close>

definition readLine_begin :: "console \<Rightarrow> console" where
  "readLine_begin c = c\<lparr>m_textArea := moveCursorToEnd (m_textArea c), m_promptActive := True\<rparr>"

definition readLine_echo_closure :: "string \<Rightarrow> console \<Rightarrow> console" where
  "readLine_echo_closure line c =
     c\<lparr>m_allOutputBuffer := m_allOutputBuffer c @ line @ [LF],
       m_textArea := appendFormattedText (line @ [LF]) (USER_INPUT_COLOR, True) (m_textArea c)\<rparr>"

definition readLine_round :: "console \<Rightarrow> string option \<times> console" where
  "readLine_round c =
     (let r1 = (if m_inputScript c \<noteq> []
                then (Some (hd (m_inputScript c)),
                      readLine_echo_closure (hd (m_inputScript c))
                        (c\<lparr>m_inputScript := tl (m_inputScript c)\<rparr>))
                else (None, c));
          c1 = snd r1
      in if m_inputLines c1 \<noteq> []
         then (Some (hd (m_inputLines c1)), c1\<lparr>m_inputLines := tl (m_inputLines c1)\<rparr>)
         else r1)"

partial_function (option) readLine_loop :: "console \<Rightarrow> (string \<times> console) option" where
  "readLine_loop c =
     (if \<not> m_shutdown c \<and> \<not> cin_eof c then
        (case readLine_round c of
           (Some line, c') \<Rightarrow> Some (line, c')
         | (None, c') \<Rightarrow> readLine_loop c')
      else Some ([], c))"

declare readLine_loop.simps [code]

definition readLine_end :: "string \<Rightarrow> console \<Rightarrow> console" where
  "readLine_end line c =
     (let c1 = c\<lparr>m_promptActive := False\<rparr>
      in if m_echo c1 then c1\<lparr>proc_stdout := proc_stdout c1 @ c_str line @ [LF]\<rparr> else c1)"

definition readLine :: "console \<Rightarrow> (string \<times> console) option" where
  "readLine c =
     (if m_shutdown c then Some ([], c)
      else (case readLine_loop (readLine_begin c) of
              None \<Rightarrow> None
            | Some (line, c') \<Rightarrow> Some (line, readLine_end line c')))"

subsection \<open>Sequences of operations\<close>

text \<open>
  The operations of the console pipeline, as the event loop, the menu actions and the
  redirected streams call them. A read is also there in its three steps, so that key
  events can fall between the rounds of a pending read. \<open>perform\<close> gives \<open>None\<close> when the
  operation throws or, for a whole read, never returns.
\<close>

datatype operation =
    Print string bool
  | Println string bool
  | ClearConsole
  | SetClearEnabled bool
  | SetEcho bool
  | SetLocked bool
  | SetTitle string
  | Shutdown
  | Close
  | LoadInputScript "string list option"
  | ProcessEof
  | ProcessUserInputEnterKey
  | ProcessUserInputKey int
  | SetUserInput string
  | ProcessCommandHistory int
  | ProcessBackspace int
  | ClipboardPaste string
  | ReadLine
  | ReadLineBegin
  | ReadLineRound
  | ReadLineEnd string

fun perform :: "operation \<Rightarrow> console \<Rightarrow> console option" where
  "perform (Print str isStdErr) c = Some (print str isStdErr c)"
| "perform (Println str isStdErr) c = Some (println str isStdErr c)"
| "perform ClearConsole c = Some (clearConsole c)"
| "perform (SetClearEnabled b) c = Some (setClearEnabled b c)"
| "perform (SetEcho b) c = Some (setEcho b c)"
| "perform (SetLocked b) c = Some (setLocked b c)"
| "perform (SetTitle title) c = Some (setTitle title c)"
| "perform Shutdown c = Some (shutdown c)"
| "perform Close c = Some (close c)"
| "perform (LoadInputScript file) c = Some (loadInputScript file c)"
| "perform ProcessEof c = Some (processEof c)"
| "perform ProcessUserInputEnterKey c = Some (processUserInputEnterKey c)"
| "perform (ProcessUserInputKey key) c = processUserInputKey key c"
| "perform (SetUserInput userInput) c = setUserInput userInput c"
| "perform (ProcessCommandHistory delta) c = processCommandHistory delta c"
| "perform (ProcessBackspace key) c = Some (processBackspace key c)"
| "perform (ClipboardPaste clipboardText) c = clipboardPaste clipboardText c"
| "perform ReadLine c = map_option snd (readLine c)"
| "perform ReadLineBegin c = Some (if m_shutdown c then c else readLine_begin c)"
| "perform ReadLineRound c =
     Some (if \<not> m_shutdown c \<and> \<not> cin_eof c then snd (readLine_round c) else c)"
| "perform (ReadLineEnd line) c = Some (readLine_end line c)"

fun run :: "operation list \<Rightarrow> console \<Rightarrow> console option" where
  "run [] c = Some c"
| "run (operation # rest) c =
     (case perform operation c of None \<Rightarrow> None | Some c' \<Rightarrow> run rest c')"

subsection \<open>Notions the statements use\<close>

text \<open>\<open>shutdown\<close> called \<open>n\<close> times in a row.\<close>

fun shutdown_times :: "nat \<Rightarrow> console \<Rightarrow> console" where
  "shutdown_times 0 c = c"
| "shutdown_times (Suc n) c = shutdown_times n (shutdown c)"

text \<open>
  A read that finds the console neither shut down nor at end of input and both queues
  empty; what a read leaves as it was; the operations that write the window title.
\<close>

definition read_blocked :: "console \<Rightarrow> bool" where
  "read_blocked c \<longleftrightarrow>
     \<not> m_shutdown c \<and> \<not> cin_eof c \<and> m_inputScript c = [] \<and> m_inputLines c = []"

definition kept :: "console \<Rightarrow> console \<Rightarrow> bool" where
  "kept c c' \<longleftrightarrow> m_shutdown c' = m_shutdown c \<and> cin_eof c' = cin_eof c
     \<and> window_title c' = window_title c \<and> m_inputBuffer c' = m_inputBuffer c
     \<and> m_inputCommandHistory c' = m_inputCommandHistory c
     \<and> m_commandHistoryIndex c' = m_commandHistoryIndex c"

fun writes_title :: "operation \<Rightarrow> bool" where
  "writes_title (SetTitle t) = True"
| "writes_title operation = False"

fun is_shutdown :: "operation \<Rightarrow> bool" where
  "is_shutdown Shutdown = True"
| "is_shutdown Close = True"
| "is_shutdown operation = False"

text \<open>
  The console after a script with the lines \<open>1\<close> and \<open>2\<close> was loaded and the user then
  typed \<open>x\<close> and Enter, before any read.
\<close>

definition typed_before_script :: console where
  "typed_before_script =
     GConsoleWindow
       \<lparr>m_textArea := \<lparr>ta_doc = [(CHR ''x'', ''blue'', True), (LF, ''blue'', False)],
                       ta_pos = 2, ta_anchor = 2\<rparr>,
        m_commandHistoryIndex := 1,
        m_allOutputBuffer := [CHR ''x'', LF],
        m_inputCommandHistory := [''x''],
        m_inputLines := [''x''],
        m_inputScript := [''1'', ''2'']\<rparr>"

text \<open>
  The console after Ctrl+D on the empty pending line and then the key \<open>x\<close>; and the
  console after the key \<open>x\<close> alone.
\<close>

definition typed_after_eof :: console where
  "typed_after_eof =
     GConsoleWindow
       \<lparr>m_textArea := \<lparr>ta_doc = [(CHR ''x'', ''blue'', True)], ta_pos = 1, ta_anchor = 1\<rparr>,
        m_inputBuffer := ''x'', cin_eof := True\<rparr>"

definition typed_x :: console where
  "typed_x =
     GConsoleWindow
       \<lparr>m_textArea := \<lparr>ta_doc = [(CHR ''x'', ''blue'', True)], ta_pos = 1, ta_anchor = 1\<rparr>,
        m_inputBuffer := ''x''\<rparr>"

text \<open>
  The widget's cursor at the end of the document with no selection, where appending
  leaves it; and the characters \<^verbatim>\<open>processUserInputKey\<close> lets into the pending buffer.
\<close>

definition cursor_at_end :: "textarea \<Rightarrow> bool" where
  "cursor_at_end ta \<longleftrightarrow> ta_pos ta = length (ta_doc ta) \<and> ta_anchor ta = length (ta_doc ta)"

definition printable :: "char \<Rightarrow> bool" where
  "printable ch \<longleftrightarrow> char_to_int ch \<noteq> 0 \<and> isprint (char_to_int ch)"

text \<open>
  Two consoles with a read pending and \<open>ab\<close> typed: one with the cursor moved to the
  start of the pending input (the Home key puts it there), one where the program has
  printed \<open>ok\<close> behind the pending input, so that the cursor, at the end of the
  transcript, stands beyond the end of the input.
\<close>

definition at_input_start :: console where
  "at_input_start =
     GConsoleWindow
       \<lparr>m_textArea := \<lparr>ta_doc = [(CHR ''a'', ''blue'', True), (CHR ''b'', ''blue'', True)],
                       ta_pos = 0, ta_anchor = 0\<rparr>,
        m_promptActive := True, m_inputBuffer := ''ab''\<rparr>"

definition beyond_input_end :: console where
  "beyond_input_end =
     GConsoleWindow
       \<lparr>m_textArea := \<lparr>ta_doc = [(CHR ''a'', ''blue'', True), (CHR ''b'', ''blue'', True),
                                 (CHR ''o'', ''black'', False), (CHR ''k'', ''black'', False)],
                       ta_pos = 4, ta_anchor = 4\<rparr>,
        m_promptActive := True, m_inputBuffer := ''ab'',
        m_allOutputBuffer := ''ok''\<rparr>"

text \<open>
  An operation that writes the pending buffer and the text surface only; and a console
  whose pending buffer and command history hold printable characters only.
\<close>

definition edits_only :: "console \<Rightarrow> console \<Rightarrow> bool" where
  "edits_only c c' \<longleftrightarrow> c' = c\<lparr>m_inputBuffer := m_inputBuffer c', m_textArea := m_textArea c'\<rparr>"

definition all_printable :: "console \<Rightarrow> bool" where
  "all_printable c \<longleftrightarrow>
     list_all printable (m_inputBuffer c)
     \<and> list_all (list_all printable) (m_inputCommandHistory c)"


text \<open>
  A console with a read pending where \<open>ab\<close> was typed behind the prompt \<open>> \<close>, the cursor
  at the start of the typed text; a console with a read pending where \<open>ab\<close> was typed
  behind the output \<open>ab\<close> of the program; and the cursor put at a position with nothing
  selected, as the arrow keys and the mouse do.
\<close>

definition typed_after_prompt :: console where
  "typed_after_prompt =
     GConsoleWindow
       \<lparr>m_textArea := \<lparr>ta_doc = [(CHR ''>'', ''black'', False), (CHR '' '', ''black'', False),
                                 (CHR ''a'', ''blue'', True), (CHR ''b'', ''blue'', True)],
                       ta_pos = 2, ta_anchor = 2\<rparr>,
        m_promptActive := True, m_inputBuffer := ''ab'',
        m_allOutputBuffer := ''> ''\<rparr>"


definition cursor_to :: "nat \<Rightarrow> console \<Rightarrow> console" where
  "cursor_to p c = c\<lparr>m_textArea := (m_textArea c)\<lparr>ta_pos := p, ta_anchor := p\<rparr>\<rparr>"

text \<open>The console after the lines \<open>a\<close> and \<open>b\<close> were typed and submitted.\<close>

definition submitted_a_b :: console where
  "submitted_a_b =
     GConsoleWindow
       \<lparr>m_textArea := \<lparr>ta_doc = [(CHR ''a'', ''blue'', True), (LF, ''blue'', False),
                                 (CHR ''b'', ''blue'', True), (LF, ''blue'', False)],
                       ta_pos = 4, ta_anchor = 4\<rparr>,
        m_commandHistoryIndex := 2,
        m_allOutputBuffer := [CHR ''a'', LF, CHR ''b'', LF],
        m_inputCommandHistory := [''a'', ''b''],
        m_inputLines := [''a'', ''b'']\<rparr>"

subsection \<open>Threads that print\<close>

text \<open>
  Modelled from the spec: \<^verbatim>\<open>GThread::runOnQtGuiThreadAsync\<close>, which is not under src/.
  A core mutation is posted as a message and applied by the single GUI thread: posting
  is one step, and the posted closures run one at a time in the order they were posted.

  Several threads call \<open>print\<close>, each its own list of calls \<open>(str, isStdErr)\<close> in order.
  A calling thread makes its raw echo, cleans the line breaks and posts the closure; the
  GUI thread runs the closure whole, under the output mutex. A schedule says who moves
  next: a calling thread with its next call, or the GUI thread with the oldest closure.
\<close>

record print_system =
  callers :: "(string \<times> bool) list list"
  posted :: "(string \<times> bool) list"
  shared :: console

datatype turn = Caller nat | GuiThread

fun print_turn :: "turn \<Rightarrow> print_system \<Rightarrow> print_system option" where
  "print_turn (Caller i) s =
     (if i < length (callers s) then
        (case callers s ! i of
           [] \<Rightarrow> None
         | (str, isStdErr) # rest \<Rightarrow>
             Some (if m_shutdown (shared s) then s\<lparr>callers := (callers s)[i := rest]\<rparr>
                   else s\<lparr>callers := (callers s)[i := rest],
                          posted := posted s @ [(clean_line_breaks str, isStdErr)],
                          shared := print_echo str isStdErr (shared s)\<rparr>))
      else None)"
| "print_turn GuiThread s =
     (case posted s of
        [] \<Rightarrow> None
      | (strToPrint, isStdErr) # rest \<Rightarrow>
          Some (s\<lparr>posted := rest, shared := print_closure strToPrint isStdErr (shared s)\<rparr>))"

fun print_turns :: "turn list \<Rightarrow> print_system \<Rightarrow> print_system option" where
  "print_turns [] s = Some s"
| "print_turns (t # ts) s =
     (case print_turn t s of None \<Rightarrow> None | Some s' \<Rightarrow> print_turns ts s')"

text \<open>
  \<open>interleaving tss xs\<close>: the list \<open>xs\<close> merges the lists \<open>tss\<close>, each whole and in its
  order.
\<close>

inductive interleaving :: "'a list list \<Rightarrow> 'a list \<Rightarrow> bool" where
  interleaving_done: "concat tss = [] \<Longrightarrow> interleaving tss []"
| interleaving_next:
    "i < length tss \<Longrightarrow> tss ! i = x # rest \<Longrightarrow> interleaving (tss[i := rest]) xs
     \<Longrightarrow> interleaving tss (x # xs)"

section \<open>Line endings and the raw echo of \<open>print\<close>\<close>

lemma stringReplaceInPlace_Nil [simp]: "stringReplaceInPlace old new [] = []"
  by (simp add: stringReplaceInPlace.simps)

lemma stringReplaceInPlace_crlf_Cons:
  "stringReplaceInPlace [CR, LF] [LF] (c # s) =
     (if c = CR \<and> s \<noteq> [] \<and> hd s = LF then LF # stringReplaceInPlace [CR, LF] [LF] (tl s)
      else c # stringReplaceInPlace [CR, LF] [LF] s)"
  by (subst stringReplaceInPlace.simps) (cases s; auto)

lemma stringReplaceInPlace_cr_Cons:
  "stringReplaceInPlace [CR] [LF] (c # s) =
     (if c = CR then LF # stringReplaceInPlace [CR] [LF] s
      else c # stringReplaceInPlace [CR] [LF] s)"
  by (subst stringReplaceInPlace.simps) auto

lemma LF_neq_CR [simp]: "LF \<noteq> CR" "CR \<noteq> LF"
  by (simp_all add: LF_def CR_def)

lemma clean_line_breaks_normalize: "clean_line_breaks s = normalize_line_endings s"
  unfolding clean_line_breaks_def
  by (induction s rule: normalize_line_endings.induct)
     (simp_all add: stringReplaceInPlace_crlf_Cons stringReplaceInPlace_cr_Cons)

lemma getText_append [simp]:
  "getText (moveCursorToEnd ta) = getText ta"
  "getText (appendFormattedText t f ta) = getText ta @ t"
  by (simp_all add: getText_def moveCursorToEnd_def appendFormattedText_def comp_def)

lemma c_str_no_NUL: "NUL \<notin> set s \<Longrightarrow> c_str s = s"
  by (auto simp: c_str_def)

text \<open>
  Claim C7. Before shutdown, \<open>print s isStdErr\<close> appends to the output log and to the
  transcript the text \<open>s\<close> with every carriage return plus line feed collapsed to one line
  feed and every other carriage return turned into a line feed. The raw echo, when echo
  is on, writes the untransformed \<open>s\<close> to the stream chosen by \<open>isStdErr\<close> (as a C string:
  all of \<open>s\<close> when it holds no NUL), and nothing is echoed when echo is off.
\<close>

theorem print_normalizes_line_endings:
  assumes "\<not> m_shutdown c"
  shows "getAllOutput (print s isStdErr c) = getAllOutput c @ normalize_line_endings s
       \<and> getText (m_textArea (print s isStdErr c))
           = getText (m_textArea c) @ normalize_line_endings s
       \<and> proc_stdout (print s isStdErr c)
           = proc_stdout c @ (if m_echo c \<and> \<not> isStdErr then c_str s else [])
       \<and> proc_stderr (print s isStdErr c)
           = proc_stderr c @ (if m_echo c \<and> isStdErr then c_str s else [])
       \<and> (NUL \<notin> set s \<longrightarrow> c_str s = s)"
  using assms
  by (simp add: print_def print_closure_def print_echo_def getAllOutput_def
        clean_line_breaks_normalize c_str_no_NUL)

theorem print_normalizes_line_endings_witness:
  "\<not> m_shutdown (GConsoleWindow\<lparr>m_echo := True\<rparr>)
   \<and> getAllOutput (print [CHR ''a'', CR, LF, CR, CHR ''b''] False
        (GConsoleWindow\<lparr>m_echo := True\<rparr>)) = [CHR ''a'', LF, LF, CHR ''b'']
   \<and> getText (m_textArea (print [CHR ''a'', CR, LF, CR, CHR ''b''] False
        (GConsoleWindow\<lparr>m_echo := True\<rparr>))) = [CHR ''a'', LF, LF, CHR ''b'']
   \<and> proc_stdout (print [CHR ''a'', CR, LF, CR, CHR ''b''] False
        (GConsoleWindow\<lparr>m_echo := True\<rparr>)) = [CHR ''a'', CR, LF, CR, CHR ''b'']
   \<and> proc_stderr (print [CHR ''a'', CR, LF, CR, CHR ''b''] False
        (GConsoleWindow\<lparr>m_echo := True\<rparr>)) = []"
  using print_normalizes_line_endings
    [of "GConsoleWindow\<lparr>m_echo := True\<rparr>" "[CHR ''a'', CR, LF, CR, CHR ''b'']" False]
  by (simp add: GConsoleWindow_def getAllOutput_def getText_def c_str_def NUL_def CR_def LF_def)

section \<open>Clearing the console\<close>

lemma getText_clearText [simp]: "getText (clearText ta) = []"
  by (simp add: getText_def clearText_def)

text \<open>
  Claim C2, as the spec states it for the enabled case, fails: \<open>clearConsole\<close> with
  clearing enabled empties the transcript but never touches the output log. Here the log
  holds \<open>hi\<close> before and after.
\<close>

theorem clearConsole_keeps_log_counterexample:
  "\<not> m_shutdown (print ''hi'' False GConsoleWindow)
   \<and> m_clearEnabled (print ''hi'' False GConsoleWindow)
   \<and> getAllOutput (print ''hi'' False GConsoleWindow) = ''hi''
   \<and> getAllOutput (clearConsole (print ''hi'' False GConsoleWindow)) = ''hi''
   \<and> getText (m_textArea (clearConsole (print ''hi'' False GConsoleWindow))) = []"
  by (simp add: clearConsole_def print_def print_closure_def print_echo_def getAllOutput_def
      GConsoleWindow_def clean_line_breaks_normalize CR_def)

text \<open>
  Claim C2, amended. On a console that is not shut down, \<open>clearConsole\<close> with clearing
  enabled empties the transcript, leaves the output log as it is and writes the marker
  line to the standard output of the process; with clearing disabled it leaves the output
  log and the transcript as they are but for the one marker line appended to each.
\<close>

theorem clearConsole_effect:
  assumes "\<not> m_shutdown c"
  shows "(m_clearEnabled c \<longrightarrow>
            getText (m_textArea (clearConsole c)) = []
          \<and> getAllOutput (clearConsole c) = getAllOutput c
          \<and> proc_stdout (clearConsole c) = proc_stdout c @ console_cleared_msg @ [LF])
       \<and> (\<not> m_clearEnabled c \<longrightarrow>
            getAllOutput (clearConsole c) = getAllOutput c @ console_cleared_msg @ [LF]
          \<and> getText (m_textArea (clearConsole c))
              = getText (m_textArea c) @ console_cleared_msg @ [LF])"
proof -
  have n: "NUL \<notin> set console_cleared_msg"
    by (simp add: console_cleared_msg_def NUL_def)
  have l: "normalize_line_endings (console_cleared_msg @ [LF]) = console_cleared_msg @ [LF]"
    by (simp add: console_cleared_msg_def LF_def CR_def)
  show ?thesis
    using assms
    by (simp add: clearConsole_def println_def getAllOutput_def c_str_no_NUL [OF n] l
        print_def print_closure_def print_echo_def clean_line_breaks_normalize)
qed

theorem clearConsole_effect_witness:
  "\<not> m_shutdown (print ''hi'' False (GConsoleWindow\<lparr>m_clearEnabled := False\<rparr>))
   \<and> \<not> m_clearEnabled (print ''hi'' False (GConsoleWindow\<lparr>m_clearEnabled := False\<rparr>))
   \<and> getAllOutput (clearConsole (print ''hi'' False (GConsoleWindow\<lparr>m_clearEnabled := False\<rparr>)))
       = ''hi'' @ console_cleared_msg @ [LF]
   \<and> \<not> m_shutdown (print ''hi'' False GConsoleWindow)
   \<and> m_clearEnabled (print ''hi'' False GConsoleWindow)
   \<and> getText (m_textArea (clearConsole (print ''hi'' False GConsoleWindow))) = []
   \<and> getAllOutput (clearConsole (print ''hi'' False GConsoleWindow)) = ''hi''"
  using clearConsole_effect [of "print ''hi'' False (GConsoleWindow\<lparr>m_clearEnabled := False\<rparr>)"]
    clearConsole_effect [of "print ''hi'' False GConsoleWindow"]
  by (simp add: print_def print_closure_def print_echo_def getAllOutput_def
      GConsoleWindow_def clean_line_breaks_normalize CR_def)

section \<open>Reading a line: when the loop stops, reads and blocks\<close>

lemma readLine_loop_stopped:
  "m_shutdown c \<or> cin_eof c \<Longrightarrow> readLine_loop c = Some ([], c)"
  by (subst readLine_loop.simps) auto

lemma readLine_loop_read:
  "\<not> m_shutdown c \<Longrightarrow> \<not> cin_eof c \<Longrightarrow> readLine_round c = (Some line, c')
   \<Longrightarrow> readLine_loop c = Some (line, c')"
  by (subst readLine_loop.simps) auto

lemma readLine_round_nothing:
  "m_inputScript c = [] \<Longrightarrow> m_inputLines c = [] \<Longrightarrow> readLine_round c = (None, c)"
  by (simp add: readLine_round_def)

lemma readLine_loop_Some_not_blocked:
  assumes r: "readLine_loop c = Some r"
  shows "\<not> read_blocked c"
proof (rule readLine_loop.raw_induct [where P = "\<lambda>c r. \<not> read_blocked c", OF _ r])
  fix loop :: "console \<Rightarrow> (string \<times> console) option" and c r
  assume IH: "\<And>x y. loop x = Some y \<Longrightarrow> \<not> read_blocked x"
    and body: "(if \<not> m_shutdown c \<and> \<not> cin_eof c
                then case readLine_round c of (None, c') \<Rightarrow> loop c'
                     | (Some line, c') \<Rightarrow> Some (line, c')
                else Some ([], c)) = Some r"
  show "\<not> read_blocked c"
  proof
    assume b: "read_blocked c"
    then have "loop c = Some r"
      using body by (simp add: read_blocked_def readLine_round_nothing)
    from IH [OF this] b show False by simp
  qed
qed

lemma readLine_loop_blocks:
  assumes "\<not> m_shutdown c" "\<not> cin_eof c" "m_inputScript c = []" "m_inputLines c = []"
  shows "readLine_loop c = None"
  using readLine_loop_Some_not_blocked [of c] assms
  by (cases "readLine_loop c") (auto simp: read_blocked_def)

lemma readLine_blocks:
  assumes "\<not> m_shutdown c" "\<not> cin_eof c" "m_inputScript c = []" "m_inputLines c = []"
  shows "readLine c = None"
  using assms by (simp add: readLine_def readLine_loop_blocks readLine_begin_def)

lemma readLine_stopped:
  "m_shutdown c \<or> cin_eof c \<Longrightarrow> \<exists>c'. readLine c = Some ([], c') \<and> m_inputScript c' = m_inputScript c
     \<and> m_inputLines c' = m_inputLines c \<and> cin_eof c' = cin_eof c \<and> m_shutdown c' = m_shutdown c"
  by (auto simp: readLine_def readLine_loop_stopped readLine_begin_def readLine_end_def Let_def)

lemma readLine_round_keeps:
  "m_shutdown (snd (readLine_round c)) = m_shutdown c"
  "cin_eof (snd (readLine_round c)) = cin_eof c"
  "window_title (snd (readLine_round c)) = window_title c"
  "m_inputBuffer (snd (readLine_round c)) = m_inputBuffer c"
  "m_inputCommandHistory (snd (readLine_round c)) = m_inputCommandHistory c"
  "m_commandHistoryIndex (snd (readLine_round c)) = m_commandHistoryIndex c"
  by (simp_all add: readLine_round_def readLine_echo_closure_def Let_def)

lemma readLine_loop_keeps:
  assumes r: "readLine_loop c = Some r"
  shows "kept c (snd r)"
proof (rule readLine_loop.raw_induct [where P = "\<lambda>c r. kept c (snd r)", OF _ r])
  fix loop :: "console \<Rightarrow> (string \<times> console) option" and c r
  assume IH: "\<And>x y. loop x = Some y \<Longrightarrow> kept x (snd y)"
    and body: "(if \<not> m_shutdown c \<and> \<not> cin_eof c
                then case readLine_round c of (None, c') \<Rightarrow> loop c'
                     | (Some line, c') \<Rightarrow> Some (line, c')
                else Some ([], c)) = Some r"
  show "kept c (snd r)"
  proof (cases "\<not> m_shutdown c \<and> \<not> cin_eof c")
    case False
    with body show ?thesis by (auto simp: kept_def)
  next
    case True
    obtain l c' where rr: "readLine_round c = (l, c')" by (cases "readLine_round c")
    have k: "kept c c'" using readLine_round_keeps [of c] rr by (simp add: kept_def)
    show ?thesis
    proof (cases l)
      case None
      with body True rr have "loop c' = Some r" by simp
      from IH [OF this] k show ?thesis by (simp add: kept_def)
    next
      case (Some line)
      with body True rr have "r = (line, c')" by simp
      with k show ?thesis by simp
    qed
  qed
qed

lemma readLine_keeps:
  "readLine c = Some (l, c') \<Longrightarrow> kept c c'"
  by (auto simp: readLine_def readLine_begin_def readLine_end_def kept_def Let_def
      split: if_splits option.splits dest!: readLine_loop_keeps)

lemma processUserInputKeys_shutdown:
  "m_shutdown c \<Longrightarrow> processUserInputKeys s c = Some c"
  by (induction s) (simp_all add: processUserInputKey_def)

lemma clipboardPaste_loop_shutdown:
  "m_shutdown c \<Longrightarrow> clipboardPaste_loop s c = Some c"
  by (induction s) (simp_all add: processUserInputKey_def processUserInputEnterKey_def)

lemma shutdown_sets [simp]: "m_shutdown (shutdown c)"
  by (simp add: shutdown_def Let_def setTitle_def)

lemma perform_keeps_shutdown:
  "perform operation c = Some c' \<Longrightarrow> m_shutdown c \<Longrightarrow> m_shutdown c'"
proof (cases operation)
  case ReadLine
  then show "perform operation c = Some c' \<Longrightarrow> m_shutdown c \<Longrightarrow> m_shutdown c'"
    by (auto simp: readLine_def)
qed (auto simp: print_def println_def clearConsole_def setClearEnabled_def setEcho_def
      setLocked_def setTitle_def close_def loadInputScript_def processEof_def
      processUserInputEnterKey_def processUserInputKey_def setUserInput_def
      processCommandHistory_def processBackspace_def clipboardPaste_def readLine_end_def
      processUserInputKeys_shutdown Let_def
      split: option.splits if_splits)

lemma run_keeps_shutdown:
  "run ops c = Some c' \<Longrightarrow> m_shutdown c \<Longrightarrow> m_shutdown c'"
  by (induction ops arbitrary: c) (auto split: option.splits dest: perform_keeps_shutdown)

section \<open>Shutdown and the window title\<close>

lemma string_find_None_iff: "string_find s pat = None \<longleftrightarrow> occurrences s pat = 0"
  by (induction s) auto

lemma suffix_occurs_once_in_itself:
  "occurrences PROGRAM_COMPLETED_TITLE_SUFFIX PROGRAM_COMPLETED_TITLE_SUFFIX = 1"
  by (simp add: PROGRAM_COMPLETED_TITLE_SUFFIX_def)

lemma suffix_no_border:
  "list_all (\<lambda>k. \<not> prefix (drop k PROGRAM_COMPLETED_TITLE_SUFFIX) PROGRAM_COMPLETED_TITLE_SUFFIX)
     [1..<12]"
  by (simp add: PROGRAM_COMPLETED_TITLE_SUFFIX_def upt_rec)

lemma suffix_length: "length PROGRAM_COMPLETED_TITLE_SUFFIX = 12"
  by (simp add: PROGRAM_COMPLETED_TITLE_SUFFIX_def)

lemma suffix_not_straddling:
  assumes "a \<noteq> []" "\<not> prefix PROGRAM_COMPLETED_TITLE_SUFFIX a"
  shows "\<not> prefix PROGRAM_COMPLETED_TITLE_SUFFIX (a @ PROGRAM_COMPLETED_TITLE_SUFFIX)"
proof
  let ?m = PROGRAM_COMPLETED_TITLE_SUFFIX
  assume "prefix ?m (a @ ?m)"
  with assms(2) obtain us where us: "?m = a @ us" "prefix us ?m"
    by (auto simp: prefix_append)
  have k: "length a \<le> 12" using us(1) suffix_length
    by (metis le_add1 length_append)
  have d: "us = drop (length a) ?m" using us(1) by (metis append_eq_conv_conj)
  have "length a \<noteq> 12"
  proof
    assume "length a = 12"
    then have "us = []" using d suffix_length by simp
    with us(1) assms(2) show False by simp
  qed
  with k assms(1) have "length a \<in> set [1..<12]" by (cases a) auto
  with suffix_no_border have "\<not> prefix (drop (length a) ?m) ?m"
    unfolding list_all_iff by blast
  with d us(2) show False by simp
qed

lemma occurrences_append_suffix:
  "occurrences t PROGRAM_COMPLETED_TITLE_SUFFIX = 0 \<Longrightarrow>
   occurrences (t @ PROGRAM_COMPLETED_TITLE_SUFFIX) PROGRAM_COMPLETED_TITLE_SUFFIX = 1"
proof (induction t)
  case Nil
  then show ?case by (simp add: suffix_occurs_once_in_itself)
next
  case (Cons x t)
  then have n: "\<not> prefix PROGRAM_COMPLETED_TITLE_SUFFIX (x # t)"
    and z: "occurrences t PROGRAM_COMPLETED_TITLE_SUFFIX = 0"
    by (auto split: if_splits)
  have "\<not> prefix PROGRAM_COMPLETED_TITLE_SUFFIX ((x # t) @ PROGRAM_COMPLETED_TITLE_SUFFIX)"
    using suffix_not_straddling [OF _ n] by simp
  with Cons.IH [OF z] show ?case by simp
qed

lemma shutdown_title:
  "window_title (shutdown c) =
     (if string_find (window_title c) PROGRAM_COMPLETED_TITLE_SUFFIX = None
      then window_title c @ PROGRAM_COMPLETED_TITLE_SUFFIX else window_title c)"
  by (simp add: shutdown_def Let_def setTitle_def)

lemma shutdown_title_once:
  "occurrences (window_title c) PROGRAM_COMPLETED_TITLE_SUFFIX \<le> 1 \<Longrightarrow>
   occurrences (window_title (shutdown c)) PROGRAM_COMPLETED_TITLE_SUFFIX = 1"
  by (auto simp: shutdown_title string_find_None_iff occurrences_append_suffix)

lemma shutdown_idem: "shutdown (shutdown c) = shutdown c"
  by (auto simp: shutdown_def Let_def setTitle_def string_find_None_iff
      occurrences_append_suffix)

lemma shutdown_times_idem: "shutdown_times n (shutdown c) = shutdown c"
  by (induction n) (simp_all add: shutdown_idem)

lemma shutdown_times_pos: "0 < n \<Longrightarrow> shutdown_times n c = shutdown c"
  by (cases n) (simp_all add: shutdown_times_idem)

lemma processUserInputKey_title:
  "processUserInputKey k c = Some c' \<Longrightarrow> window_title c' = window_title c"
  by (auto simp: processUserInputKey_def Let_def split: if_splits option.splits)

lemma processUserInputKeys_title:
  "processUserInputKeys s c = Some c' \<Longrightarrow> window_title c' = window_title c"
  by (induction s arbitrary: c) (auto split: option.splits dest: processUserInputKey_title)

lemma clipboardPaste_loop_title:
  "clipboardPaste_loop s c = Some c' \<Longrightarrow> window_title c' = window_title c"
  by (induction s arbitrary: c)
     (auto split: option.splits if_splits dest: processUserInputKey_title
        simp: processUserInputEnterKey_def)

lemma perform_title:
  "perform operation c = Some c' \<Longrightarrow> \<not> writes_title operation \<Longrightarrow>
   window_title c' = (if is_shutdown operation then window_title (shutdown c) else window_title c)"
proof (cases operation)
  case ReadLine
  then show "perform operation c = Some c' \<Longrightarrow> \<not> writes_title operation \<Longrightarrow>
   window_title c' = (if is_shutdown operation then window_title (shutdown c) else window_title c)"
    by (auto dest: readLine_keeps simp: kept_def)
qed (auto simp: print_def println_def clearConsole_def setClearEnabled_def setEcho_def
      setLocked_def close_def loadInputScript_def processEof_def print_closure_def print_echo_def
      processUserInputEnterKey_def setUserInput_def readLine_begin_def readLine_round_keeps
      processCommandHistory_def processBackspace_def clipboardPaste_def readLine_end_def Let_def
      split: option.splits if_splits
      dest: processUserInputKey_title processUserInputKeys_title clipboardPaste_loop_title)

lemma run_title_once:
  "run ops c = Some c' \<Longrightarrow> list_all (\<lambda>operation. \<not> writes_title operation) ops \<Longrightarrow>
   occurrences (window_title c) PROGRAM_COMPLETED_TITLE_SUFFIX \<le> 1 \<Longrightarrow>
   occurrences (window_title c') PROGRAM_COMPLETED_TITLE_SUFFIX \<le> 1
   \<and> (list_ex is_shutdown ops \<or> occurrences (window_title c) PROGRAM_COMPLETED_TITLE_SUFFIX = 1
        \<longrightarrow> occurrences (window_title c') PROGRAM_COMPLETED_TITLE_SUFFIX = 1)"
proof (induction ops arbitrary: c)
  case Nil
  then show ?case by simp
next
  case (Cons operation ops)
  then obtain c1 where p: "perform operation c = Some c1" and r: "run ops c1 = Some c'"
    by (auto split: option.splits)
  from Cons.prems(2) have nw: "\<not> writes_title operation"
    and rest: "list_all (\<lambda>operation. \<not> writes_title operation) ops" by simp_all
  have t: "window_title c1 =
      (if is_shutdown operation then window_title (shutdown c) else window_title c)"
    using perform_title [OF p nw] .
  have le: "occurrences (window_title c1) PROGRAM_COMPLETED_TITLE_SUFFIX \<le> 1"
    using t Cons.prems(3) shutdown_title_once [of c] by (auto split: if_splits)
  have one: "is_shutdown operation \<or> occurrences (window_title c) PROGRAM_COMPLETED_TITLE_SUFFIX = 1
        \<Longrightarrow> occurrences (window_title c1) PROGRAM_COMPLETED_TITLE_SUFFIX = 1"
    using t Cons.prems(3) shutdown_title_once [of c] by (auto split: if_splits)
  from Cons.IH [OF r rest le] one show ?case by auto
qed

text \<open>
  Claim C9. The shutdown flag is monotonic: \<open>shutdown\<close> sets it, and no sequence of
  operations that runs from a console that is shut down ends in one that is not. The
  completion marker is appended at most once: any number \<open>n > 0\<close> of \<open>shutdown\<close> calls
  leaves the console one call leaves; one call appends the marker exactly when the title
  does not hold it yet; and a title that held the marker at most once holds it exactly
  once after the calls, also when other operations that do not set the title run between
  them.
\<close>

theorem shutdown_monotonic_title_marker_once:
  "m_shutdown (shutdown c)
   \<and> (m_shutdown c \<and> run ops c = Some c' \<longrightarrow> m_shutdown c')
   \<and> (0 < n \<longrightarrow> shutdown_times n c = shutdown c)
   \<and> window_title (shutdown c) =
        (if string_find (window_title c) PROGRAM_COMPLETED_TITLE_SUFFIX = None
         then window_title c @ PROGRAM_COMPLETED_TITLE_SUFFIX else window_title c)
   \<and> (0 < n \<and> occurrences (window_title c) PROGRAM_COMPLETED_TITLE_SUFFIX \<le> 1 \<longrightarrow>
        occurrences (window_title (shutdown_times n c)) PROGRAM_COMPLETED_TITLE_SUFFIX = 1)
   \<and> (run ops c = Some c' \<and> list_all (\<lambda>operation. \<not> writes_title operation) ops
        \<and> list_ex is_shutdown ops
        \<and> occurrences (window_title c) PROGRAM_COMPLETED_TITLE_SUFFIX \<le> 1 \<longrightarrow>
        occurrences (window_title c') PROGRAM_COMPLETED_TITLE_SUFFIX = 1)"
proof (intro conjI impI)
  show "m_shutdown (shutdown c)" by simp
  show "m_shutdown c'" if "m_shutdown c \<and> run ops c = Some c'"
    using that run_keeps_shutdown [of ops c c'] by simp
  show "shutdown_times n c = shutdown c" if "0 < n"
    using that by (rule shutdown_times_pos)
  show "window_title (shutdown c) =
        (if string_find (window_title c) PROGRAM_COMPLETED_TITLE_SUFFIX = None
         then window_title c @ PROGRAM_COMPLETED_TITLE_SUFFIX else window_title c)"
    by (rule shutdown_title)
  show "occurrences (window_title (shutdown_times n c)) PROGRAM_COMPLETED_TITLE_SUFFIX = 1"
    if "0 < n \<and> occurrences (window_title c) PROGRAM_COMPLETED_TITLE_SUFFIX \<le> 1"
    using that by (simp add: shutdown_times_pos shutdown_title_once)
  show "occurrences (window_title c') PROGRAM_COMPLETED_TITLE_SUFFIX = 1"
    if "run ops c = Some c' \<and> list_all (\<lambda>operation. \<not> writes_title operation) ops
        \<and> list_ex is_shutdown ops
        \<and> occurrences (window_title c) PROGRAM_COMPLETED_TITLE_SUFFIX \<le> 1"
    using that run_title_once [of ops c c'] by blast
qed

theorem shutdown_monotonic_title_marker_once_witness:
  "m_shutdown (shutdown GConsoleWindow)
   \<and> run [Shutdown, Print ''x'' False, Close, ReadLine, Shutdown] (shutdown GConsoleWindow)
       = Some (shutdown GConsoleWindow)
   \<and> list_all (\<lambda>operation. \<not> writes_title operation)
        [Shutdown, Print ''x'' False, Close, ReadLine, Shutdown]
   \<and> list_ex is_shutdown [Shutdown, Print ''x'' False, Close, ReadLine, Shutdown]
   \<and> occurrences (window_title (shutdown GConsoleWindow)) PROGRAM_COMPLETED_TITLE_SUFFIX \<le> 1
   \<and> occurrences (window_title (shutdown GConsoleWindow)) PROGRAM_COMPLETED_TITLE_SUFFIX = 1
   \<and> (0::nat) < 3
   \<and> shutdown_times 3 (shutdown GConsoleWindow) = shutdown (shutdown GConsoleWindow)
   \<and> window_title (shutdown GConsoleWindow) = ''Console [completed]''"
proof -
  let ?ops = "[Shutdown, Print ''x'' False, Close, ReadLine, Shutdown]"
  let ?c = "shutdown GConsoleWindow"
  have c: "?c = GConsoleWindow\<lparr>m_shutdown := True, window_title := ''Console [completed]''\<rparr>"
    by (simp add: shutdown_def setTitle_def Let_def
        GConsoleWindow_def DEFAULT_WINDOW_TITLE_def PROGRAM_COMPLETED_TITLE_SUFFIX_def)
  have r: "run ?ops ?c = Some ?c"
    unfolding c
    by (simp add: shutdown_def close_def print_def readLine_def setTitle_def Let_def
        GConsoleWindow_def PROGRAM_COMPLETED_TITLE_SUFFIX_def)
  have w: "list_all (\<lambda>operation. \<not> writes_title operation) ?ops" by simp
  have e: "list_ex is_shutdown ?ops" by simp
  have o: "occurrences (window_title ?c) PROGRAM_COMPLETED_TITLE_SUFFIX \<le> 1"
    unfolding c by (simp add: PROGRAM_COMPLETED_TITLE_SUFFIX_def)
  have n: "(0::nat) < 3" by simp
  have s: "m_shutdown ?c" by simp
  have t: "window_title ?c = ''Console [completed]''" unfolding c by simp
  note T = shutdown_monotonic_title_marker_once [of ?c ?ops ?c 3]
  from T r w e o have o1: "occurrences (window_title ?c) PROGRAM_COMPLETED_TITLE_SUFFIX = 1"
    by blast
  from T n have i: "shutdown_times 3 ?c = shutdown ?c" by blast
  from s r w e o o1 n i t show ?thesis by blast
qed

section \<open>Script lines and typed lines in one round of a read\<close>

lemma readLine_round_both:
  "m_inputScript c = s # ss \<Longrightarrow> m_inputLines c = l # ls \<Longrightarrow>
   fst (readLine_round c) = Some l
   \<and> m_inputScript (snd (readLine_round c)) = ss \<and> m_inputLines (snd (readLine_round c)) = ls"
  by (simp add: readLine_round_def readLine_echo_closure_def Let_def)

lemma readLine_prefers_typed_line:
  assumes "\<not> m_shutdown c" "\<not> cin_eof c" "m_inputScript c = s # ss" "m_inputLines c = l # ls"
  shows "\<exists>c'. readLine c = Some (l, c') \<and> m_inputScript c' = ss \<and> m_inputLines c' = ls"
proof -
  let ?b = "readLine_begin c"
  have b: "\<not> m_shutdown ?b" "\<not> cin_eof ?b" "m_inputScript ?b = s # ss" "m_inputLines ?b = l # ls"
    using assms by (simp_all add: readLine_begin_def)
  obtain c1 where r: "readLine_round ?b = (Some l, c1)"
    and q: "m_inputScript c1 = ss" "m_inputLines c1 = ls"
    using readLine_round_both [OF b(3) b(4)] by (cases "readLine_round ?b") auto
  have "readLine_loop ?b = Some (l, c1)" using readLine_loop_read [OF b(1) b(2) r] .
  then show ?thesis using assms(1) q by (simp add: readLine_def readLine_end_def Let_def)
qed

lemma readLine_script_only:
  assumes "\<not> m_shutdown c" "\<not> cin_eof c" "m_inputScript c = s # ss" "m_inputLines c = []"
  shows "\<exists>c'. readLine c = Some (s, c') \<and> m_inputScript c' = ss \<and> m_inputLines c' = []"
proof -
  let ?b = "readLine_begin c"
  have b: "\<not> m_shutdown ?b" "\<not> cin_eof ?b" "m_inputScript ?b = s # ss" "m_inputLines ?b = []"
    using assms by (simp_all add: readLine_begin_def)
  obtain c1 where r: "readLine_round ?b = (Some s, c1)"
    and q: "m_inputScript c1 = ss" "m_inputLines c1 = []"
    using b(3) b(4) by (simp add: readLine_round_def readLine_echo_closure_def Let_def)
  have "readLine_loop ?b = Some (s, c1)" using readLine_loop_read [OF b(1) b(2) r] .
  then show ?thesis using assms(1) q by (simp add: readLine_def readLine_end_def Let_def)
qed

lemma readLine_typed_only:
  assumes "\<not> m_shutdown c" "\<not> cin_eof c" "m_inputScript c = []" "m_inputLines c = l # ls"
  shows "\<exists>c'. readLine c = Some (l, c') \<and> m_inputScript c' = [] \<and> m_inputLines c' = ls"
proof -
  let ?b = "readLine_begin c"
  have b: "\<not> m_shutdown ?b" "\<not> cin_eof ?b" "m_inputScript ?b = []" "m_inputLines ?b = l # ls"
    using assms by (simp_all add: readLine_begin_def)
  obtain c1 where r: "readLine_round ?b = (Some l, c1)"
    and q: "m_inputScript c1 = []" "m_inputLines c1 = ls"
    using b(3) b(4) by (simp add: readLine_round_def readLine_echo_closure_def Let_def)
  have "readLine_loop ?b = Some (l, c1)" using readLine_loop_read [OF b(1) b(2) r] .
  then show ?thesis using assms(1) q by (simp add: readLine_def readLine_end_def Let_def)
qed

lemma int_to_char_x: "int_to_char 120 = CHR ''x''"
  by (simp add: int_to_char_def char_of_eq_iff take_bit_eq_mod)

lemma typed_before_script_reached:
  "run [LoadInputScript (Some [''1'', ''2'']), ProcessUserInputKey 120, ProcessUserInputEnterKey]
     GConsoleWindow = Some typed_before_script"
  by (simp add: typed_before_script_def loadInputScript_def processUserInputKey_def
      processUserInputEnterKey_def isprint_def isCursorInUserInputArea_def getUserInputStart_def
      getUserInputEnd_def getUserInputFragment_def GConsoleWindow_def Let_def charToString_def
      int_to_char_x appendFormattedText_def moveCursorToEnd_def USER_INPUT_COLOR_def)

text \<open>
  Claim C1 at its own example. A script with the lines \<open>1\<close> and \<open>2\<close> is loaded, and a typed
  line \<open>x\<close> is in the input queue before the first read. The round of the read takes the
  script line \<open>1\<close> from its queue and echoes it, then, with no \<open>else\<close> between the two
  tests, takes \<open>x\<close> from the input queue over it: the first read returns \<open>x\<close>, the second
  \<open>2\<close>, and \<open>1\<close> is returned by no read.
\<close>

theorem readLine_loses_script_line:
  "run [LoadInputScript (Some [''1'', ''2'']), ProcessUserInputKey 120, ProcessUserInputEnterKey]
     GConsoleWindow = Some typed_before_script
   \<and> m_inputScript typed_before_script = [''1'', ''2'']
   \<and> m_inputLines typed_before_script = [''x'']
   \<and> \<not> m_shutdown typed_before_script \<and> \<not> cin_eof typed_before_script
   \<and> (\<exists>c1 c2. readLine typed_before_script = Some (''x'', c1)
         \<and> m_inputScript c1 = [''2''] \<and> m_inputLines c1 = []
         \<and> readLine c1 = Some (''2'', c2)
         \<and> m_inputScript c2 = [] \<and> m_inputLines c2 = [])"
proof -
  have a: "\<not> m_shutdown typed_before_script" "\<not> cin_eof typed_before_script"
    "m_inputScript typed_before_script = [''1'', ''2'']"
    "m_inputLines typed_before_script = [''x'']"
    by (simp_all add: typed_before_script_def GConsoleWindow_def)
  obtain c1 where c1: "readLine typed_before_script = Some (''x'', c1)"
    "m_inputScript c1 = [''2'']" "m_inputLines c1 = []"
    using readLine_prefers_typed_line [OF a] by blast
  have k: "kept typed_before_script c1" using readLine_keeps [OF c1(1)] .
  then have b: "\<not> m_shutdown c1" "\<not> cin_eof c1" using a by (simp_all add: kept_def)
  obtain c2 where c2: "readLine c1 = Some (''2'', c2)" "m_inputScript c2 = []" "m_inputLines c2 = []"
    using readLine_script_only [OF b c1(2) c1(3)] by blast
  from typed_before_script_reached a c1 c2 show ?thesis by blast
qed

section \<open>Submitting a line and reading it\<close>

lemma enter_effect:
  "\<not> m_shutdown c \<Longrightarrow>
     m_inputLines (processUserInputEnterKey c) = m_inputLines c @ [m_inputBuffer c]
   \<and> m_inputCommandHistory (processUserInputEnterKey c) = m_inputCommandHistory c @ [m_inputBuffer c]
   \<and> m_commandHistoryIndex (processUserInputEnterKey c)
       = int (length (m_inputCommandHistory (processUserInputEnterKey c)))
   \<and> m_inputBuffer (processUserInputEnterKey c) = []
   \<and> m_inputScript (processUserInputEnterKey c) = m_inputScript c
   \<and> cin_eof (processUserInputEnterKey c) = cin_eof c
   \<and> \<not> m_shutdown (processUserInputEnterKey c)"
  by (simp add: processUserInputEnterKey_def)

lemma typed_after_eof_reached:
  "run [ProcessEof, ProcessUserInputKey 120] GConsoleWindow = Some typed_after_eof"
  by (simp add: typed_after_eof_def processEof_def processUserInputKey_def
      isprint_def isCursorInUserInputArea_def getUserInputStart_def
      getUserInputEnd_def getUserInputFragment_def GConsoleWindow_def Let_def charToString_def
      int_to_char_x appendFormattedText_def moveCursorToEnd_def USER_INPUT_COLOR_def)

text \<open>
  Claim C3, as stated for every console, fails once end of input was signalled: the user
  presses Ctrl+D on the empty line, types \<open>x\<close> and Enter; the line is queued, but the read
  returns the empty line at once and leaves \<open>x\<close> in the queue.
\<close>

theorem submit_then_readLine_at_eof_counterexample:
  "run [ProcessEof, ProcessUserInputKey 120] GConsoleWindow = Some typed_after_eof
   \<and> \<not> m_shutdown typed_after_eof
   \<and> m_inputBuffer typed_after_eof = ''x''
   \<and> m_inputScript typed_after_eof = [] \<and> m_inputLines typed_after_eof = []
   \<and> m_inputLines (processUserInputEnterKey typed_after_eof) = [''x'']
   \<and> (\<exists>c'. readLine (processUserInputEnterKey typed_after_eof) = Some ([], c')
         \<and> m_inputLines c' = [''x''])"
proof -
  have a: "\<not> m_shutdown typed_after_eof" "m_inputBuffer typed_after_eof = ''x''"
    "m_inputScript typed_after_eof = []" "m_inputLines typed_after_eof = []"
    "cin_eof typed_after_eof"
    by (simp_all add: typed_after_eof_def GConsoleWindow_def)
  note e = enter_effect [OF a(1)]
  have "cin_eof (processUserInputEnterKey typed_after_eof)" using e a by simp
  then obtain c' where "readLine (processUserInputEnterKey typed_after_eof) = Some ([], c')"
    "m_inputLines c' = m_inputLines (processUserInputEnterKey typed_after_eof)"
    using readLine_stopped [of "processUserInputEnterKey typed_after_eof"] by blast
  with typed_after_eof_reached a e show ?thesis by simp
qed

text \<open>
  Claim C3, amended. On a console that is not shut down and has not been signalled end of
  input, with both queues empty: after the pending line \<open>s\<close> is submitted, the last entry
  of the command history is \<open>s\<close>, the history cursor equals the length of the history
  and the pending buffer is empty; and the read that follows returns exactly \<open>s\<close>.
\<close>

theorem submit_then_readLine:
  assumes "\<not> m_shutdown c" "\<not> cin_eof c" "m_inputScript c = []" "m_inputLines c = []"
  shows "last (m_inputCommandHistory (processUserInputEnterKey c)) = m_inputBuffer c
       \<and> m_commandHistoryIndex (processUserInputEnterKey c)
           = int (length (m_inputCommandHistory (processUserInputEnterKey c)))
       \<and> m_inputBuffer (processUserInputEnterKey c) = []
       \<and> (\<exists>c'. readLine (processUserInputEnterKey c) = Some (m_inputBuffer c, c')
              \<and> m_inputLines c' = [])"
proof -
  let ?e = "processUserInputEnterKey c"
  note e = enter_effect [OF assms(1)]
  have "\<exists>c'. readLine ?e = Some (m_inputBuffer c, c') \<and> m_inputScript c' = []
          \<and> m_inputLines c' = []"
    by (rule readLine_typed_only) (use e assms in simp_all)
  with e show ?thesis by auto
qed

theorem submit_then_readLine_witness:
  "\<not> m_shutdown (GConsoleWindow\<lparr>m_inputBuffer := ''hello''\<rparr>)
   \<and> \<not> cin_eof (GConsoleWindow\<lparr>m_inputBuffer := ''hello''\<rparr>)
   \<and> m_inputScript (GConsoleWindow\<lparr>m_inputBuffer := ''hello''\<rparr>) = []
   \<and> m_inputLines (GConsoleWindow\<lparr>m_inputBuffer := ''hello''\<rparr>) = []
   \<and> last (m_inputCommandHistory
        (processUserInputEnterKey (GConsoleWindow\<lparr>m_inputBuffer := ''hello''\<rparr>))) = ''hello''
   \<and> m_commandHistoryIndex
        (processUserInputEnterKey (GConsoleWindow\<lparr>m_inputBuffer := ''hello''\<rparr>)) = 1
   \<and> (\<exists>c'. readLine (processUserInputEnterKey (GConsoleWindow\<lparr>m_inputBuffer := ''hello''\<rparr>))
           = Some (''hello'', c'))"
proof -
  let ?c = "GConsoleWindow\<lparr>m_inputBuffer := ''hello''\<rparr>"
  have a: "\<not> m_shutdown ?c" "\<not> cin_eof ?c" "m_inputScript ?c = []" "m_inputLines ?c = []"
    by (simp_all add: GConsoleWindow_def)
  have b: "m_inputBuffer ?c = ''hello''" by simp
  have i: "m_commandHistoryIndex (processUserInputEnterKey ?c) = 1"
    by (simp add: processUserInputEnterKey_def GConsoleWindow_def)
  from submit_then_readLine [OF a] a b i show ?thesis by auto
qed

section \<open>End of input\<close>

lemma processUserInputKey_eof:
  "processUserInputKey k c = Some c' \<Longrightarrow> cin_eof c' = cin_eof c"
  by (auto simp: processUserInputKey_def Let_def split: if_splits option.splits)

lemma processUserInputKeys_eof:
  "processUserInputKeys s c = Some c' \<Longrightarrow> cin_eof c' = cin_eof c"
  by (induction s arbitrary: c) (auto split: option.splits dest: processUserInputKey_eof)

lemma clipboardPaste_loop_eof:
  "clipboardPaste_loop s c = Some c' \<Longrightarrow> cin_eof c' = cin_eof c"
  by (induction s arbitrary: c)
     (auto split: option.splits if_splits dest: processUserInputKey_eof
        simp: processUserInputEnterKey_def)

lemma perform_keeps_eof:
  "perform operation c = Some c' \<Longrightarrow> cin_eof c \<Longrightarrow> cin_eof c'"
proof (cases operation)
  case ReadLine
  then show "perform operation c = Some c' \<Longrightarrow> cin_eof c \<Longrightarrow> cin_eof c'"
    by (auto dest: readLine_keeps simp: kept_def)
qed (auto simp: print_def println_def clearConsole_def setClearEnabled_def setEcho_def
      setLocked_def setTitle_def shutdown_def close_def loadInputScript_def processEof_def
      print_closure_def print_echo_def
      processUserInputEnterKey_def setUserInput_def readLine_begin_def readLine_round_keeps
      processCommandHistory_def processBackspace_def clipboardPaste_def readLine_end_def Let_def
      split: option.splits if_splits
      dest: processUserInputKey_eof processUserInputKeys_eof clipboardPaste_loop_eof)

lemma run_keeps_eof:
  "run ops c = Some c' \<Longrightarrow> cin_eof c \<Longrightarrow> cin_eof c'"
  by (induction ops arbitrary: c) (auto split: option.splits dest: perform_keeps_eof)

lemma typed_x_reached: "run [ProcessUserInputKey 120] GConsoleWindow = Some typed_x"
  by (simp add: typed_x_def processUserInputKey_def
      isprint_def isCursorInUserInputArea_def getUserInputStart_def
      getUserInputEnd_def getUserInputFragment_def GConsoleWindow_def Let_def charToString_def
      int_to_char_x appendFormattedText_def moveCursorToEnd_def USER_INPUT_COLOR_def)

text \<open>
  Claim C5. \<open>processEof\<close> on an empty pending buffer sets the end-of-input flag, and the
  flag is sticky: after whatever operations follow, every read returns the empty line at
  once and takes nothing from either queue. On a non-empty pending buffer \<open>processEof\<close>
  changes nothing, so a read that blocks (console live, no end of input, both queues
  empty) still blocks: its round reads nothing and the read never returns.
\<close>

theorem processEof_sticky_or_nothing:
  "(m_inputBuffer c = [] \<longrightarrow>
      cin_eof (processEof c)
    \<and> (\<forall>ops c'. run ops (processEof c) = Some c' \<longrightarrow>
          cin_eof c'
        \<and> (\<exists>c''. readLine c' = Some ([], c'') \<and> m_inputScript c'' = m_inputScript c'
               \<and> m_inputLines c'' = m_inputLines c')))
   \<and> (m_inputBuffer c \<noteq> [] \<longrightarrow>
        processEof c = c
      \<and> (read_blocked c \<longrightarrow>
            readLine (processEof c) = None
          \<and> fst (readLine_round (readLine_begin (processEof c))) = None))"
proof (intro conjI impI allI)
  assume e: "m_inputBuffer c = []"
  then show s: "cin_eof (processEof c)" by (simp add: processEof_def)
  fix ops c'
  assume r: "run ops (processEof c) = Some c'"
  show c': "cin_eof c'" using run_keeps_eof [OF r s] .
  show "\<exists>c''. readLine c' = Some ([], c'') \<and> m_inputScript c'' = m_inputScript c'
               \<and> m_inputLines c'' = m_inputLines c'"
    using readLine_stopped [of c'] c' by blast
next
  assume n: "m_inputBuffer c \<noteq> []"
  then show p: "processEof c = c" by (simp add: processEof_def)
  assume b: "read_blocked c"
  then show "readLine (processEof c) = None"
    using p by (simp add: read_blocked_def readLine_blocks)
  show "fst (readLine_round (readLine_begin (processEof c))) = None"
    using b p by (simp add: read_blocked_def readLine_round_def readLine_begin_def)
qed

theorem processEof_sticky_or_nothing_witness:
  "m_inputBuffer GConsoleWindow = []
   \<and> run [ProcessUserInputKey 120, ProcessUserInputEnterKey] (processEof GConsoleWindow)
       = Some (processUserInputEnterKey typed_after_eof)
   \<and> m_inputLines (processUserInputEnterKey typed_after_eof) = [''x'']
   \<and> (\<exists>c''. readLine (processUserInputEnterKey typed_after_eof) = Some ([], c'')
          \<and> m_inputLines c'' = [''x''])
   \<and> m_inputBuffer typed_x \<noteq> [] \<and> read_blocked typed_x
   \<and> processEof typed_x = typed_x
   \<and> readLine (processEof typed_x) = None"
proof -
  have r: "run [ProcessUserInputKey 120, ProcessUserInputEnterKey] (processEof GConsoleWindow)
       = Some (processUserInputEnterKey typed_after_eof)"
    using typed_after_eof_reached by (simp split: option.splits)
  have l: "m_inputLines (processUserInputEnterKey typed_after_eof) = [''x'']"
    by (simp add: processUserInputEnterKey_def typed_after_eof_def GConsoleWindow_def)
  have e: "m_inputBuffer GConsoleWindow = []" by (simp add: GConsoleWindow_def)
  have x: "m_inputBuffer typed_x \<noteq> []" "read_blocked typed_x"
    by (simp_all add: typed_x_def read_blocked_def GConsoleWindow_def)
  note T1 = processEof_sticky_or_nothing [of GConsoleWindow]
  note T2 = processEof_sticky_or_nothing [of typed_x]
  from T1 e r have "\<exists>c''. readLine (processUserInputEnterKey typed_after_eof) = Some ([], c'')
     \<and> m_inputScript c'' = m_inputScript (processUserInputEnterKey typed_after_eof)
     \<and> m_inputLines c'' = m_inputLines (processUserInputEnterKey typed_after_eof)"
    by blast
  with l have 1: "\<exists>c''. readLine (processUserInputEnterKey typed_after_eof) = Some ([], c'')
          \<and> m_inputLines c'' = [''x'']" by auto
  from T2 x have 2: "processEof typed_x = typed_x" "readLine (processEof typed_x) = None"
    by blast+
  from e r l 1 x 2 show ?thesis by blast
qed

section \<open>The fragment of the pending input lies inside the document\<close>

lemma find_fragment_Some:
  "find_fragment fs buf = Some (p, l) \<Longrightarrow> (p, buf) \<in> set fs \<and> l = length buf"
  by (induction fs buf rule: find_fragment.induct) (auto split: if_splits)

lemma fragment_positions_bound:
  "(p, t) \<in> set (fragment_positions q frs) \<Longrightarrow>
   q \<le> p \<and> p + length t \<le> q + sum_list (map (\<lambda>fr. length (fst fr)) frs)"
  by (induction q frs rule: fragment_positions.induct) fastforce+

lemma fragments_length:
  "sum_list (map (\<lambda>fr. length (fst fr)) (fragments blk)) = length blk"
  by (induction blk) (auto split: list.splits)

lemma search_blocks_Some:
  "search_blocks bps buf = Some (p, l) \<Longrightarrow>
   \<exists>q blk. (q, blk) \<in> set bps \<and> q \<le> p \<and> p + l \<le> q + length blk \<and> l = length buf"
proof (induction bps buf rule: search_blocks.induct)
  case (1 buf)
  then show ?case by simp
next
  case (2 q block previous buf)
  show ?case
  proof (cases "find_fragment (fragment_positions q (fragments block)) buf")
    case None
    with 2 show ?thesis by auto
  next
    case (Some frag)
    with 2(2) have f: "find_fragment (fragment_positions q (fragments block)) buf = Some (p, l)"
      by simp
    from find_fragment_Some [OF f] fragment_positions_bound [of p buf q "fragments block"]
    have "q \<le> p \<and> p + l \<le> q + length block \<and> l = length buf"
      by (simp add: fragments_length)
    then show ?thesis by auto
  qed
qed

lemma block_positions_bound:
  "(r, blk) \<in> set (block_positions q bs) \<Longrightarrow>
   q \<le> r \<and> r + length blk + 1 \<le> q + sum_list (map (\<lambda>b. length b + 1) bs)"
  by (induction q bs rule: block_positions.induct) fastforce+

lemma split_blocks_length:
  "sum_list (map (\<lambda>b. length b + 1) (split_blocks doc)) = length doc + 1"
  by (induction doc) (auto split: list.splits)

lemma getUserInputFragment_Some:
  assumes "getUserInputFragment c = Some (p, l)"
  shows "l = length (m_inputBuffer c) \<and> 0 < l \<and> p + l \<le> length (ta_doc (m_textArea c))"
proof -
  let ?doc = "ta_doc (m_textArea c)"
  from assms have ne: "m_inputBuffer c \<noteq> []"
    and s: "search_blocks (rev (block_positions 0 (split_blocks ?doc))) (m_inputBuffer c) = Some (p, l)"
    by (auto simp: getUserInputFragment_def split: if_splits)
  from search_blocks_Some [OF s] obtain q blk where
    b: "(q, blk) \<in> set (block_positions 0 (split_blocks ?doc))"
    and le: "p + l \<le> q + length blk" and l: "l = length (m_inputBuffer c)"
    by auto
  from block_positions_bound [OF b] split_blocks_length [of ?doc]
  have "q + length blk + 1 \<le> length ?doc + 1"
    by linarith
  with le l ne show ?thesis by simp
qed

lemma getUserInputFragment_empty:
  "m_inputBuffer c = [] \<Longrightarrow> getUserInputFragment c = None"
  by (simp add: getUserInputFragment_def)

section \<open>Editing the pending input\<close>



lemma isCursorInUserInputArea_frag:
  assumes "getUserInputFragment c = Some (p, l)" "isCursorInUserInputArea c"
  shows "p \<le> ta_pos (m_textArea c) \<and> ta_pos (m_textArea c) \<le> p + l"
  using assms
  by (simp add: isCursorInUserInputArea_def getUserInputStart_def getUserInputEnd_def Let_def)



lemma int_to_char_to_int [simp]: "int_to_char (char_to_int ch) = ch"
proof -
  have "char_of ((of_char ch :: int) - 256) = char_of ((of_char ch - 256) mod (256::int))"
    by (simp only: char_of_mod_256)
  also have "((of_char ch :: int) - 256) mod 256 = of_char ch mod 256"
    by simp
  finally show ?thesis
    by (simp add: int_to_char_def char_to_int_def)
qed

lemma insertText_at_end:
  "cursor_at_end ta \<Longrightarrow>
   insertText text ta = \<lparr>ta_doc = ta_doc ta @ map (\<lambda>ch. (ch, charFormat ta)) text,
                         ta_pos = length (ta_doc ta) + length text,
                         ta_anchor = length (ta_doc ta) + length text\<rparr>"
  by (simp add: cursor_at_end_def insertText_def removeSelectedText_def selectionStart_def
      selectionEnd_def Let_def)

lemma processUserInputKey_at_end:
  assumes "\<not> m_shutdown c" "key \<noteq> 0" "isprint key"
    and "m_inputBuffer c = [] \<or> cursor_at_end (m_textArea c)"
  shows "\<exists>c'. processUserInputKey key c = Some c'
          \<and> m_inputBuffer c' = m_inputBuffer c @ [int_to_char key]
          \<and> cursor_at_end (m_textArea c')
          \<and> c' = c\<lparr>m_inputBuffer := m_inputBuffer c', m_textArea := m_textArea c'\<rparr>"
proof (cases "isCursorInUserInputArea c \<and> getUserInputFragment c \<noteq> None")
  case False
  with assms show ?thesis
    by (auto simp: processUserInputKey_def Let_def charToString_def cursor_at_end_def
        appendFormattedText_def moveCursorToEnd_def)
next
  case True
  then obtain p l where f: "getUserInputFragment c = Some (p, l)" by auto
  from getUserInputFragment_Some [OF f]
  have l: "l = length (m_inputBuffer c)" "0 < l" "p + l \<le> length (ta_doc (m_textArea c))"
    by blast+
  then have "m_inputBuffer c \<noteq> []" by auto
  with assms(4) have e: "cursor_at_end (m_textArea c)" by simp
  then have pos: "ta_pos (m_textArea c) = length (ta_doc (m_textArea c))"
    "ta_anchor (m_textArea c) = length (ta_doc (m_textArea c))"
    by (simp_all add: cursor_at_end_def)
  from isCursorInUserInputArea_frag [OF f] True l(3) pos
  have n: "length (ta_doc (m_textArea c)) = p + l" by simp
  have sel: "selectionStart (m_textArea c) = p + l" "selectionEnd (m_textArea c) = p + l"
    using pos n by (simp_all add: selectionStart_def selectionEnd_def)
  have ins: "string_insert (m_inputBuffer c) (int l) [int_to_char key]
               = Some (m_inputBuffer c @ [int_to_char key])"
    using l(1) by (simp add: string_insert_def)
  have "processUserInputKey key c =
          Some (c\<lparr>m_inputBuffer := m_inputBuffer c @ [int_to_char key],
                  m_textArea := insertText [int_to_char key] (m_textArea c)\<rparr>)"
    using assms(1-3) True f sel pos n l(2) ins
    by (simp add: processUserInputKey_def Let_def charToString_def ALLOW_RICH_INPUT_EDITING_def)
  then show ?thesis
    using insertText_at_end [OF e] by (simp add: cursor_at_end_def)
qed

lemma processUserInputKey_ignored:
  "key = 0 \<or> \<not> isprint key \<Longrightarrow> processUserInputKey key c = Some c"
  by (auto simp: processUserInputKey_def)

lemma processUserInputKeys_at_end:
  assumes "\<not> m_shutdown c" "m_inputBuffer c = [] \<or> cursor_at_end (m_textArea c)"
  shows "\<exists>c'. processUserInputKeys s c = Some c'
          \<and> m_inputBuffer c' = m_inputBuffer c @ filter printable s
          \<and> c' = c\<lparr>m_inputBuffer := m_inputBuffer c', m_textArea := m_textArea c'\<rparr>"
  using assms
proof (induction s arbitrary: c)
  case Nil
  then show ?case by simp
next
  case (Cons ch s)
  show ?case
  proof (cases "printable ch")
    case False
    then have "processUserInputKey (char_to_int ch) c = Some c"
      by (intro processUserInputKey_ignored) (auto simp: printable_def)
    with Cons.IH [OF Cons.prems] False show ?thesis by simp
  next
    case True
    then have k: "char_to_int ch \<noteq> 0" "isprint (char_to_int ch)" by (simp_all add: printable_def)
    from processUserInputKey_at_end [OF Cons.prems(1) k Cons.prems(2)]
    obtain c1 where c1: "processUserInputKey (char_to_int ch) c = Some c1"
      "m_inputBuffer c1 = m_inputBuffer c @ [ch]" "cursor_at_end (m_textArea c1)"
      "c1 = c\<lparr>m_inputBuffer := m_inputBuffer c1, m_textArea := m_textArea c1\<rparr>"
      by auto
    have s1: "\<not> m_shutdown c1" using c1(4) Cons.prems(1) by (metis console.select_convs(6) console.surjective console.update_convs(1) console.update_convs(10))
    from Cons.IH [OF s1] c1(3)
    obtain c' where c': "processUserInputKeys s c1 = Some c'"
      "m_inputBuffer c' = m_inputBuffer c1 @ filter printable s"
      "c' = c1\<lparr>m_inputBuffer := m_inputBuffer c', m_textArea := m_textArea c'\<rparr>"
      by auto
    have "c' = c\<lparr>m_inputBuffer := m_inputBuffer c', m_textArea := m_textArea c'\<rparr>"
      by (subst c'(3), subst c1(4)) simp
    with c1 c' True show ?thesis by simp
  qed
qed

lemma of_char_int_bounds: "0 \<le> (of_char ch :: int) \<and> (of_char ch :: int) < 256"
proof -
  have "(of_char ch :: int) = int (of_char ch)" by (simp only: of_nat_of_char)
  moreover have "(of_char ch :: nat) < 256" by (rule nat_of_char_less_256)
  ultimately show ?thesis by linarith
qed

lemma printable_iff: "printable ch \<longleftrightarrow> 32 \<le> (of_char ch :: int) \<and> (of_char ch :: int) \<le> 126"
  using of_char_int_bounds [of ch] by (auto simp: printable_def isprint_def char_to_int_def)

lemma not_printable_NUL: "\<not> printable NUL"
  by (simp add: printable_iff NUL_def)

lemma at_input_start_fragment: "getUserInputFragment at_input_start = Some (0, 2)"
  by (simp add: getUserInputFragment_def at_input_start_def GConsoleWindow_def LF_def)

lemma beyond_input_end_fragment: "getUserInputFragment beyond_input_end = Some (0, 2)"
  by (simp add: getUserInputFragment_def beyond_input_end_def GConsoleWindow_def LF_def)

lemma int_to_char_a: "int_to_char 97 = CHR ''a''" "int_to_char 98 = CHR ''b''" "int_to_char 99 = CHR ''c''"
  by (simp_all add: int_to_char_def char_of_eq_iff take_bit_eq_mod)

lemma beyond_input_end_reached:
  "run [ReadLineBegin, ProcessUserInputKey 97, ProcessUserInputKey 98, Print ''ok'' False]
     GConsoleWindow = Some beyond_input_end"
proof -
  let ?c1 = "GConsoleWindow\<lparr>m_promptActive := True\<rparr>"
  let ?c2 = "?c1\<lparr>m_textArea := \<lparr>ta_doc = [(CHR ''a'', ''blue'', True)], ta_pos = 1, ta_anchor = 1\<rparr>,
                  m_inputBuffer := ''a''\<rparr>"
  let ?c3 = "?c1\<lparr>m_textArea := \<lparr>ta_doc = [(CHR ''a'', ''blue'', True), (CHR ''b'', ''blue'', True)],
                                 ta_pos = 2, ta_anchor = 2\<rparr>,
                  m_inputBuffer := ''ab''\<rparr>"
  have 1: "perform ReadLineBegin GConsoleWindow = Some ?c1"
    by (simp add: readLine_begin_def GConsoleWindow_def moveCursorToEnd_def)
  have 2: "perform (ProcessUserInputKey 97) ?c1 = Some ?c2"
    by (simp add: processUserInputKey_def isprint_def isCursorInUserInputArea_def
        getUserInputStart_def getUserInputEnd_def getUserInputFragment_def GConsoleWindow_def
        Let_def charToString_def int_to_char_a appendFormattedText_def moveCursorToEnd_def
        USER_INPUT_COLOR_def)
  have f: "getUserInputFragment ?c2 = Some (0, 1)"
    by (simp add: getUserInputFragment_def GConsoleWindow_def LF_def)
  have 3: "perform (ProcessUserInputKey 98) ?c2 = Some ?c3"
    unfolding perform.simps processUserInputKey_def isCursorInUserInputArea_def
      getUserInputStart_def getUserInputEnd_def f
    by (simp add: isprint_def GConsoleWindow_def
        Let_def charToString_def int_to_char_a ALLOW_RICH_INPUT_EDITING_def
        selectionStart_def selectionEnd_def insertText_def removeSelectedText_def
        charFormat_def string_insert_def)
  have 4: "perform (Print ''ok'' False) ?c3 = Some beyond_input_end"
    by (simp add: print_def print_closure_def print_echo_def clean_line_breaks_normalize
        GConsoleWindow_def beyond_input_end_def appendFormattedText_def moveCursorToEnd_def
        getOutputColor_def DEFAULT_OUTPUT_COLOR_def CR_def)
  show ?thesis
    by (simp only: run.simps 1 2 3 4 option.case)
qed

text \<open>Behind the first character of the pending input, Backspace removes that character.\<close>

lemma backspace_behind_first_char:
  "m_inputBuffer (processBackspace BACKSPACE_KEY
      (at_input_start\<lparr>m_textArea := (m_textArea at_input_start)\<lparr>ta_pos := 1, ta_anchor := 1\<rparr>\<rparr>))
     = ''b''
   \<and> getText (m_textArea (processBackspace BACKSPACE_KEY
      (at_input_start\<lparr>m_textArea := (m_textArea at_input_start)\<lparr>ta_pos := 1, ta_anchor := 1\<rparr>\<rparr>)))
     = ''b''"
proof -
  let ?c = "at_input_start\<lparr>m_textArea := (m_textArea at_input_start)\<lparr>ta_pos := 1, ta_anchor := 1\<rparr>\<rparr>"
  have f: "getUserInputFragment ?c = Some (0, 2)"
    by (simp add: getUserInputFragment_def at_input_start_def GConsoleWindow_def LF_def)
  show ?thesis
    unfolding processBackspace_def f
    by (simp add: at_input_start_def GConsoleWindow_def Let_def BACKSPACE_KEY_def
        deletePreviousChar_range_def doc_remove_def string_erase_def getText_def
        adjust_removed_def)
qed

subsection \<open>Where the search finds the typed text\<close>

text \<open>
  The search of \<^verbatim>\<open>getUserInputFragment\<close> goes through the fragments of the last line from
  the first to the last and takes the first whose text equals the pending buffer. When
  the typed text stands at position \<open>n\<close> with no such fragment before it, the search
  finds the typed text.
\<close>

lemma split_blocks_not_Nil [simp]: "split_blocks xs \<noteq> []"
  by (induction xs) (auto split: list.splits)





lemma fragments_Nil_iff [simp]: "fragments xs = [] \<longleftrightarrow> xs = []"
  by (cases xs) (auto split: list.splits)







subsection \<open>Backspace at the start of the input, and a key beyond its end\<close>



lemma typed_after_prompt_reached:
  "run [Print ''> '' False, ReadLineBegin, ProcessUserInputKey 97, ProcessUserInputKey 98]
     GConsoleWindow = Some (cursor_to 4 typed_after_prompt)"
proof -
  let ?out = "[(CHR ''>'', ''black'', False), (CHR '' '', ''black'', False)]"
  let ?c1 = "GConsoleWindow\<lparr>m_textArea := \<lparr>ta_doc = ?out, ta_pos = 2, ta_anchor = 2\<rparr>,
                            m_allOutputBuffer := ''> ''\<rparr>"
  let ?c2 = "?c1\<lparr>m_promptActive := True\<rparr>"
  let ?c3 = "?c2\<lparr>m_textArea := \<lparr>ta_doc = ?out @ [(CHR ''a'', ''blue'', True)],
                                 ta_pos = 3, ta_anchor = 3\<rparr>,
                  m_inputBuffer := ''a''\<rparr>"
  have 1: "perform (Print ''> '' False) GConsoleWindow = Some ?c1"
    by (simp add: print_def print_closure_def print_echo_def clean_line_breaks_normalize
        GConsoleWindow_def appendFormattedText_def moveCursorToEnd_def
        getOutputColor_def DEFAULT_OUTPUT_COLOR_def CR_def)
  have 2: "perform ReadLineBegin ?c1 = Some ?c2"
    by (simp add: readLine_begin_def GConsoleWindow_def moveCursorToEnd_def)
  have 3: "perform (ProcessUserInputKey 97) ?c2 = Some ?c3"
    by (simp add: processUserInputKey_def isprint_def isCursorInUserInputArea_def
        getUserInputStart_def getUserInputEnd_def getUserInputFragment_def GConsoleWindow_def
        Let_def charToString_def int_to_char_a appendFormattedText_def moveCursorToEnd_def
        USER_INPUT_COLOR_def getText_def)
  have f: "getUserInputFragment ?c3 = Some (2, 1)"
    by (simp add: getUserInputFragment_def GConsoleWindow_def LF_def)
  have 4: "perform (ProcessUserInputKey 98) ?c3 = Some (cursor_to 4 typed_after_prompt)"
    unfolding perform.simps processUserInputKey_def isCursorInUserInputArea_def
      getUserInputStart_def getUserInputEnd_def f
    by (simp add: isprint_def GConsoleWindow_def typed_after_prompt_def cursor_to_def
        Let_def charToString_def int_to_char_a ALLOW_RICH_INPUT_EDITING_def
        selectionStart_def selectionEnd_def insertText_def removeSelectedText_def
        charFormat_def string_insert_def)
  show ?thesis
    by (simp only: run.simps 1 2 3 4 option.case)
qed





section \<open>Replacing the pending input\<close>

text \<open>
  Claim C10. Before shutdown, \<open>setUserInput s\<close> returns and leaves as the pending buffer
  the printable characters of \<open>s\<close> in their order: every other character, NUL among
  them, is dropped by \<open>processUserInputKey\<close>. The printable characters are those from
  the space to the tilde.
\<close>

theorem setUserInput_keeps_printable:
  "(\<not> m_shutdown c \<longrightarrow>
      (\<exists>c'. setUserInput s c = Some c' \<and> m_inputBuffer c' = filter printable s))
   \<and> (printable ch \<longleftrightarrow> 32 \<le> (of_char ch :: int) \<and> (of_char ch :: int) \<le> 126)
   \<and> \<not> printable NUL"
proof (intro conjI impI)
  assume n: "\<not> m_shutdown c"
  let ?ta1 = "case getUserInputFragment c of
                None \<Rightarrow> m_textArea c
              | Some (fragPos, fragLen) \<Rightarrow>
                  removeSelectedText
                    ((m_textArea c)\<lparr>ta_pos := min (min fragPos (length (ta_doc (m_textArea c))) + fragLen)
                                     (length (ta_doc (m_textArea c))),
                        ta_anchor := min fragPos (length (ta_doc (m_textArea c)))\<rparr>)"
  let ?c1 = "c\<lparr>m_textArea := ?ta1, m_inputBuffer := []\<rparr>"
  have "\<exists>c'. processUserInputKeys s ?c1 = Some c'
          \<and> m_inputBuffer c' = m_inputBuffer ?c1 @ filter printable s
          \<and> c' = ?c1\<lparr>m_inputBuffer := m_inputBuffer c', m_textArea := m_textArea c'\<rparr>"
    by (rule processUserInputKeys_at_end) (use n in simp_all)
  then show "\<exists>c'. setUserInput s c = Some c' \<and> m_inputBuffer c' = filter printable s"
    by (auto simp: setUserInput_def Let_def)
next
  show "printable ch \<longleftrightarrow> 32 \<le> (of_char ch :: int) \<and> (of_char ch :: int) \<le> 126"
    by (rule printable_iff)
  show "\<not> printable NUL" by (rule not_printable_NUL)
qed

theorem setUserInput_keeps_printable_witness:
  "\<not> m_shutdown beyond_input_end
   \<and> (\<exists>c'. setUserInput [CHR ''h'', NUL, CHR 0x07, CHR ''i'', CHR 0xE9, CHR ''!''] beyond_input_end
          = Some c' \<and> m_inputBuffer c' = ''hi!'')"
proof -
  have b: "\<not> m_shutdown beyond_input_end"
    by (simp add: beyond_input_end_def GConsoleWindow_def)
  have f: "filter printable [CHR ''h'', NUL, CHR 0x07, CHR ''i'', CHR 0xE9, CHR ''!''] = ''hi!''"
    by (simp add: printable_iff NUL_def)
  from setUserInput_keeps_printable
    [of beyond_input_end "[CHR ''h'', NUL, CHR 0x07, CHR ''i'', CHR 0xE9, CHR ''!'']" NUL] b
  have "\<exists>c'. setUserInput [CHR ''h'', NUL, CHR 0x07, CHR ''i'', CHR 0xE9, CHR ''!''] beyond_input_end
          = Some c' \<and> m_inputBuffer c'
            = filter printable [CHR ''h'', NUL, CHR 0x07, CHR ''i'', CHR 0xE9, CHR ''!'']"
    by blast
  with b f show ?thesis by simp
qed

section \<open>The command history\<close>

lemma edits_only_fields:
  assumes "edits_only c c'"
  shows "m_shutdown c' = m_shutdown c" "m_inputCommandHistory c' = m_inputCommandHistory c"
    "m_commandHistoryIndex c' = m_commandHistoryIndex c" "m_inputLines c' = m_inputLines c"
    "m_inputScript c' = m_inputScript c" "cin_eof c' = cin_eof c"
proof -
  from assms have e: "c' = c\<lparr>m_inputBuffer := m_inputBuffer c', m_textArea := m_textArea c'\<rparr>"
    by (simp add: edits_only_def)
  show "m_shutdown c' = m_shutdown c" by (subst e) simp
  show "m_inputCommandHistory c' = m_inputCommandHistory c" by (subst e) simp
  show "m_commandHistoryIndex c' = m_commandHistoryIndex c" by (subst e) simp
  show "m_inputLines c' = m_inputLines c" by (subst e) simp
  show "m_inputScript c' = m_inputScript c" by (subst e) simp
  show "cin_eof c' = cin_eof c" by (subst e) simp
qed

lemma setUserInput_effect:
  "\<exists>c'. setUserInput s c = Some c'
     \<and> m_inputBuffer c' = (if m_shutdown c then [] else filter printable s)
     \<and> edits_only c c'"
proof -
  let ?ta1 = "case getUserInputFragment c of
                None \<Rightarrow> m_textArea c
              | Some (fragPos, fragLen) \<Rightarrow>
                  removeSelectedText
                    ((m_textArea c)\<lparr>ta_pos := min (min fragPos (length (ta_doc (m_textArea c))) + fragLen)
                                     (length (ta_doc (m_textArea c))),
                        ta_anchor := min fragPos (length (ta_doc (m_textArea c)))\<rparr>)"
  let ?c1 = "c\<lparr>m_textArea := ?ta1, m_inputBuffer := []\<rparr>"
  have s: "setUserInput s c = processUserInputKeys s ?c1"
    by (simp add: setUserInput_def Let_def)
  show ?thesis
  proof (cases "m_shutdown c")
    case True
    then have "processUserInputKeys s ?c1 = Some ?c1"
      by (intro processUserInputKeys_shutdown) simp
    with s True show ?thesis by (simp add: edits_only_def)
  next
    case False
    have "\<exists>c'. processUserInputKeys s ?c1 = Some c'
          \<and> m_inputBuffer c' = m_inputBuffer ?c1 @ filter printable s
          \<and> c' = ?c1\<lparr>m_inputBuffer := m_inputBuffer c', m_textArea := m_textArea c'\<rparr>"
      by (rule processUserInputKeys_at_end) (use False in simp_all)
    then obtain c' where c': "processUserInputKeys s ?c1 = Some c'"
      "m_inputBuffer c' = filter printable s"
      "c' = ?c1\<lparr>m_inputBuffer := m_inputBuffer c', m_textArea := m_textArea c'\<rparr>"
      by auto
    have "edits_only c c'"
      unfolding edits_only_def by (subst c'(3)) simp
    with s c' False show ?thesis by simp
  qed
qed

lemma int_wrap_id: "INT_MIN \<le> x \<Longrightarrow> x \<le> INT_MAX \<Longrightarrow> int_wrap x = x"
  using mod_pos_pos_trivial [of "x + 2147483648" 4294967296]
  by (simp add: int_wrap_def INT_MIN_def INT_MAX_def)

lemma processCommandHistory_effect:
  "\<exists>c'. processCommandHistory delta c = Some c'
     \<and> m_commandHistoryIndex c'
         = min (max (- 1) (int_wrap (m_commandHistoryIndex c + delta)))
             (int (length (m_inputCommandHistory c)))
     \<and> m_inputCommandHistory c' = m_inputCommandHistory c
     \<and> m_shutdown c' = m_shutdown c
     \<and> m_inputBuffer c' =
         (if m_shutdown c then []
          else if 0 \<le> m_commandHistoryIndex c' \<and> m_commandHistoryIndex c' < int (length (m_inputCommandHistory c))
          then filter printable (m_inputCommandHistory c ! nat (m_commandHistoryIndex c'))
          else [])"
proof -
  let ?i = "min (max (- 1) (int_wrap (m_commandHistoryIndex c + delta)))
              (int (length (m_inputCommandHistory c)))"
  let ?old = "if 0 \<le> ?i \<and> ?i < int (length (m_inputCommandHistory c))
              then m_inputCommandHistory c ! nat ?i else []"
  let ?c1 = "c\<lparr>m_commandHistoryIndex := ?i\<rparr>"
  have p: "processCommandHistory delta c = setUserInput ?old ?c1"
    by (simp add: processCommandHistory_def Let_def)
  from setUserInput_effect [of ?old ?c1] obtain c' where
    c': "setUserInput ?old ?c1 = Some c'"
    "m_inputBuffer c' = (if m_shutdown ?c1 then [] else filter printable ?old)"
    "edits_only ?c1 c'" by blast
  note f = edits_only_fields [OF c'(3)]
  have i: "m_commandHistoryIndex c' = ?i" using f(3) by simp
  have "m_inputBuffer c' =
         (if m_shutdown c then []
          else if 0 \<le> ?i \<and> ?i < int (length (m_inputCommandHistory c))
          then filter printable (m_inputCommandHistory c ! nat ?i)
          else [])"
  proof (cases "0 \<le> ?i \<and> ?i < int (length (m_inputCommandHistory c))")
    case True
    have a: "?old = m_inputCommandHistory c ! nat ?i" using True by (rule if_P)
    have b: "(if 0 \<le> ?i \<and> ?i < int (length (m_inputCommandHistory c))
              then filter printable (m_inputCommandHistory c ! nat ?i) else [])
             = filter printable (m_inputCommandHistory c ! nat ?i)" using True by (rule if_P)
    show ?thesis using c'(2) unfolding a b by simp
  next
    case False
    have a: "?old = []" using False by (rule if_not_P)
    have b: "(if 0 \<le> ?i \<and> ?i < int (length (m_inputCommandHistory c))
              then filter printable (m_inputCommandHistory c ! nat ?i) else [])
             = []" using False by (rule if_not_P)
    show ?thesis using c'(2) unfolding a b by simp
  qed
  then have b: "m_inputBuffer c' =
         (if m_shutdown c then []
          else if 0 \<le> m_commandHistoryIndex c'
                  \<and> m_commandHistoryIndex c' < int (length (m_inputCommandHistory c))
          then filter printable (m_inputCommandHistory c ! nat (m_commandHistoryIndex c'))
          else [])"
    unfolding i .
  have r: "processCommandHistory delta c = Some c'" using p c'(1) by (simp only:)
  have h: "m_inputCommandHistory c' = m_inputCommandHistory c" using f(2) by simp
  have d: "m_shutdown c' = m_shutdown c" using f(1) by simp
  from r i h d b show ?thesis by (intro exI [of _ c'] conjI)
qed

lemma filter_printable_id: "list_all printable s \<Longrightarrow> filter printable s = s"
  by (induction s) auto

lemma printable_int_to_char: "key \<noteq> 0 \<Longrightarrow> isprint key \<Longrightarrow> printable (int_to_char key)"
  by (auto simp: printable_def isprint_def char_to_int_def int_to_char_def)

lemma list_all_take_drop:
  "list_all P xs \<Longrightarrow> list_all P (take n xs) \<and> list_all P (drop n xs)"
  by (auto simp: list_all_iff dest: in_set_takeD in_set_dropD)

lemma string_insert_printable:
  "string_insert buf i k = Some buf' \<Longrightarrow> list_all printable buf \<Longrightarrow> list_all printable k
   \<Longrightarrow> list_all printable buf'"
  by (auto simp: string_insert_def list_all_take_drop split: if_splits)

lemma string_erase_printable:
  "list_all printable buf \<Longrightarrow> list_all printable (string_erase buf i n)"
  by (simp add: string_erase_def list_all_take_drop)

lemma processUserInputKey_printable:
  assumes "processUserInputKey key c = Some c'" "all_printable c"
  shows "all_printable c'"
proof (cases "\<not> m_shutdown c \<and> key \<noteq> 0 \<and> isprint key")
  case False
  then have "processUserInputKey key c = Some c"
    by (cases "m_shutdown c") (auto simp: processUserInputKey_def)
  with assms show ?thesis by simp
next
  case True
  then have k: "list_all printable (charToString (int_to_char key))"
    by (simp add: charToString_def printable_int_to_char)
  from assms(2) have b: "list_all printable (m_inputBuffer c)"
    and h: "list_all (list_all printable) (m_inputCommandHistory c)"
    by (simp_all add: all_printable_def)
  from assms(1) True
  have "m_inputCommandHistory c' = m_inputCommandHistory c \<and> list_all printable (m_inputBuffer c')"
    using b k string_erase_printable [OF b]
    by (auto simp: processUserInputKey_def Let_def split: if_splits option.splits
        dest: string_insert_printable)
  with h show ?thesis by (simp add: all_printable_def)
qed

lemma processUserInputKeys_printable:
  "processUserInputKeys s c = Some c' \<Longrightarrow> all_printable c \<Longrightarrow> all_printable c'"
  by (induction s arbitrary: c) (auto split: option.splits dest: processUserInputKey_printable)

lemma processUserInputEnterKey_printable:
  "all_printable c \<Longrightarrow> all_printable (processUserInputEnterKey c)"
  by (simp add: processUserInputEnterKey_def all_printable_def)

lemma clipboardPaste_loop_printable:
  "clipboardPaste_loop s c = Some c' \<Longrightarrow> all_printable c \<Longrightarrow> all_printable c'"
  by (induction s arbitrary: c)
     (auto split: option.splits if_splits
        dest: processUserInputKey_printable processUserInputEnterKey_printable)

lemma setUserInput_printable:
  assumes "setUserInput s c = Some c'" "all_printable c"
  shows "all_printable c'"
proof -
  from setUserInput_effect [of s c] assms(1)
  have b: "m_inputBuffer c' = (if m_shutdown c then [] else filter printable s)"
    and e: "edits_only c c'" by auto
  from b have "list_all printable (m_inputBuffer c')" by (simp add: list_all_iff)
  with edits_only_fields(2) [OF e] assms(2) show ?thesis by (simp add: all_printable_def)
qed

lemma processCommandHistory_printable:
  assumes "processCommandHistory delta c = Some c'" "all_printable c"
  shows "all_printable c'"
proof -
  from processCommandHistory_effect [of delta c] assms(1)
  have h: "m_inputCommandHistory c' = m_inputCommandHistory c"
    and b: "m_inputBuffer c' =
         (if m_shutdown c then []
          else if 0 \<le> m_commandHistoryIndex c' \<and> m_commandHistoryIndex c' < int (length (m_inputCommandHistory c))
          then filter printable (m_inputCommandHistory c ! nat (m_commandHistoryIndex c'))
          else [])" by auto
  from b have "list_all printable (m_inputBuffer c')" by (simp add: list_all_iff)
  with h assms(2) show ?thesis by (simp add: all_printable_def)
qed

lemma processBackspace_printable:
  "all_printable c \<Longrightarrow> all_printable (processBackspace key c)"
  by (auto simp: processBackspace_def all_printable_def Let_def string_erase_printable)

lemma kept_printable: "kept c c' \<Longrightarrow> all_printable c \<Longrightarrow> all_printable c'"
  by (simp add: kept_def all_printable_def)

lemma perform_printable:
  "perform operation c = Some c' \<Longrightarrow> all_printable c \<Longrightarrow> all_printable c'"
proof (cases operation)
  case ReadLine
  then show "perform operation c = Some c' \<Longrightarrow> all_printable c \<Longrightarrow> all_printable c'"
    by (auto dest: readLine_keeps kept_printable)
next
  case (ProcessBackspace key)
  then show "perform operation c = Some c' \<Longrightarrow> all_printable c \<Longrightarrow> all_printable c'"
    by (auto simp: processBackspace_printable)
next
  case (ProcessUserInputKey key)
  then show "perform operation c = Some c' \<Longrightarrow> all_printable c \<Longrightarrow> all_printable c'"
    by (auto dest: processUserInputKey_printable)
next
  case (SetUserInput s)
  then show "perform operation c = Some c' \<Longrightarrow> all_printable c \<Longrightarrow> all_printable c'"
    by (auto dest: setUserInput_printable)
next
  case (ProcessCommandHistory delta)
  then show "perform operation c = Some c' \<Longrightarrow> all_printable c \<Longrightarrow> all_printable c'"
    by (auto dest: processCommandHistory_printable)
next
  case ProcessUserInputEnterKey
  then show "perform operation c = Some c' \<Longrightarrow> all_printable c \<Longrightarrow> all_printable c'"
    by (auto simp: processUserInputEnterKey_printable)
next
  case (ClipboardPaste clip)
  then show "perform operation c = Some c' \<Longrightarrow> all_printable c \<Longrightarrow> all_printable c'"
    by (auto simp: clipboardPaste_def all_printable_def Let_def split: if_splits
        dest!: clipboardPaste_loop_printable [unfolded all_printable_def])
qed (auto simp: print_def println_def clearConsole_def setClearEnabled_def setEcho_def
      setLocked_def setTitle_def shutdown_def close_def loadInputScript_def processEof_def
      print_closure_def print_echo_def all_printable_def readLine_begin_def readLine_round_keeps
      readLine_end_def Let_def
      split: option.splits if_splits)

lemma run_printable:
  "run ops c = Some c' \<Longrightarrow> all_printable c \<Longrightarrow> all_printable c'"
  by (induction ops arbitrary: c) (auto split: option.splits dest: perform_printable)

lemma GConsoleWindow_printable: "all_printable GConsoleWindow"
  by (simp add: all_printable_def GConsoleWindow_def)

lemma run_append:
  "run (xs @ ys) c = (case run xs c of None \<Rightarrow> None | Some c' \<Rightarrow> run ys c')"
  by (induction xs arbitrary: c) (auto split: option.splits)

lemma type_and_enter:
  assumes "\<not> m_shutdown c" "m_inputBuffer c = []" "key \<noteq> 0" "isprint key"
  shows "\<exists>c'. run [ProcessUserInputKey key, ProcessUserInputEnterKey] c = Some c'
          \<and> \<not> m_shutdown c' \<and> m_inputBuffer c' = []
          \<and> m_inputCommandHistory c' = m_inputCommandHistory c @ [[int_to_char key]]
          \<and> m_commandHistoryIndex c' = int (length (m_inputCommandHistory c'))"
proof -
  from processUserInputKey_at_end [OF assms(1,3,4)] assms(2)
  obtain c1 where c1: "processUserInputKey key c = Some c1"
    "m_inputBuffer c1 = [int_to_char key]" "edits_only c c1"
    by (auto simp: edits_only_def)
  note f = edits_only_fields [OF c1(3)]
  have n: "\<not> m_shutdown c1" using f(1) assms(1) by simp
  note e = enter_effect [OF n]
  have "run [ProcessUserInputKey key, ProcessUserInputEnterKey] c
          = Some (processUserInputEnterKey c1)"
    using c1(1) by simp
  with e c1(2) f(2) show ?thesis by simp
qed

lemma navigate_back:
  assumes "\<not> m_shutdown c" "m_inputCommandHistory c = [''a'', ''b'']"
    and "- 1 \<le> m_commandHistoryIndex c" "m_commandHistoryIndex c \<le> 2"
  shows "\<exists>c'. processCommandHistory (- 1) c = Some c' \<and> \<not> m_shutdown c'
          \<and> m_inputCommandHistory c' = [''a'', ''b'']
          \<and> m_commandHistoryIndex c' = min (max (- 1) (m_commandHistoryIndex c - 1)) 2
          \<and> m_inputBuffer c' =
              (if m_commandHistoryIndex c' = 1 then ''b''
               else if m_commandHistoryIndex c' = 0 then ''a'' else [])"
proof -
  from processCommandHistory_effect [of "- 1" c] obtain c' where
    c': "processCommandHistory (- 1) c = Some c'"
    "m_commandHistoryIndex c'
       = min (max (- 1) (int_wrap (m_commandHistoryIndex c + - 1)))
           (int (length (m_inputCommandHistory c)))"
    "m_inputCommandHistory c' = m_inputCommandHistory c"
    "m_shutdown c' = m_shutdown c"
    "m_inputBuffer c' =
         (if m_shutdown c then []
          else if 0 \<le> m_commandHistoryIndex c' \<and> m_commandHistoryIndex c' < int (length (m_inputCommandHistory c))
          then filter printable (m_inputCommandHistory c ! nat (m_commandHistoryIndex c'))
          else [])"
    by blast
  have w: "int_wrap (m_commandHistoryIndex c + - 1) = m_commandHistoryIndex c - 1"
    using assms(3,4) by (intro int_wrap_id [THEN trans]) (simp_all add: INT_MIN_def INT_MAX_def)
  have i: "m_commandHistoryIndex c' = min (max (- 1) (m_commandHistoryIndex c - 1)) 2"
    using c'(2) assms(2) unfolding w by simp
  have r: "- 1 \<le> m_commandHistoryIndex c'" "m_commandHistoryIndex c' \<le> 2"
    using i by simp_all
  then consider "m_commandHistoryIndex c' = - 1" | "m_commandHistoryIndex c' = 0"
    | "m_commandHistoryIndex c' = 1" | "m_commandHistoryIndex c' = 2" by linarith
  then have "m_inputBuffer c' =
              (if m_commandHistoryIndex c' = 1 then ''b''
               else if m_commandHistoryIndex c' = 0 then ''a'' else [])"
    using c'(5) assms(1,2) by cases (simp_all add: printable_iff)
  with c'(1,3,4) i assms(1,2) show ?thesis by simp
qed

lemma submitted_a_b_reached:
  "run [ProcessUserInputKey 97, ProcessUserInputEnterKey,
        ProcessUserInputKey 98, ProcessUserInputEnterKey] GConsoleWindow = Some submitted_a_b"
  by (simp add: submitted_a_b_def processUserInputKey_def
      processUserInputEnterKey_def isprint_def isCursorInUserInputArea_def getUserInputStart_def
      getUserInputEnd_def getUserInputFragment_def GConsoleWindow_def Let_def charToString_def
      int_to_char_a appendFormattedText_def moveCursorToEnd_def USER_INPUT_COLOR_def)

lemma shutdown_submitted_a_b:
  "m_shutdown (shutdown submitted_a_b)"
  "m_inputCommandHistory (shutdown submitted_a_b) = [''a'', ''b'']"
  "m_commandHistoryIndex (shutdown submitted_a_b) = 2"
  by (simp_all add: shutdown_def setTitle_def Let_def submitted_a_b_def GConsoleWindow_def)

text \<open>
  Claim C6, as stated for every cursor index, every \<open>delta\<close> and every console, fails at
  two inputs. After \<open>a\<close> and \<open>b\<close> were submitted the cursor is 2, and \<open>delta = 2147483647\<close>
  makes the \<^verbatim>\<open>int\<close> sum overflow: the cursor becomes \<open>-1\<close>, where \<open>i + delta\<close> clamped to
  \<open>[-1, 2]\<close> is 2. And on a console that was shut down, going back by one sets the cursor
  to 1, inside the history, yet the pending buffer is empty and not the entry \<open>b\<close>:
  \<open>processUserInputKey\<close>, through which \<open>setUserInput\<close> rebuilds the buffer, returns at
  once after shutdown.
\<close>

theorem history_navigation_overflow_shutdown_counterexample:
  "run [ProcessUserInputKey 97, ProcessUserInputEnterKey,
        ProcessUserInputKey 98, ProcessUserInputEnterKey] GConsoleWindow = Some submitted_a_b
   \<and> m_inputCommandHistory submitted_a_b = [''a'', ''b'']
   \<and> m_commandHistoryIndex submitted_a_b = 2
   \<and> map_option m_commandHistoryIndex (processCommandHistory 2147483647 submitted_a_b)
       = Some (- 1)
   \<and> min (max (- 1) (m_commandHistoryIndex submitted_a_b + 2147483647))
         (int (length (m_inputCommandHistory submitted_a_b))) = 2
   \<and> m_shutdown (shutdown submitted_a_b)
   \<and> m_inputCommandHistory (shutdown submitted_a_b) = [''a'', ''b'']
   \<and> m_commandHistoryIndex (shutdown submitted_a_b) = 2
   \<and> map_option m_commandHistoryIndex (processCommandHistory (- 1) (shutdown submitted_a_b))
       = Some 1
   \<and> map_option m_inputBuffer (processCommandHistory (- 1) (shutdown submitted_a_b))
       = Some []"
proof -
  have a: "m_inputCommandHistory submitted_a_b = [''a'', ''b'']"
    "m_commandHistoryIndex submitted_a_b = 2"
    by (simp_all add: submitted_a_b_def GConsoleWindow_def)
  have w: "int_wrap (2 + 2147483647) = - 2147483647" "int_wrap (2 + - 1) = 1"
    by (simp_all add: int_wrap_def)
  from processCommandHistory_effect [of 2147483647 submitted_a_b]
  have 1: "map_option m_commandHistoryIndex (processCommandHistory 2147483647 submitted_a_b)
       = Some (- 1)"
    unfolding a w by auto
  have 2: "min (max (- 1) (m_commandHistoryIndex submitted_a_b + 2147483647))
         (int (length (m_inputCommandHistory submitted_a_b))) = 2"
    by (simp add: a)
  note s = shutdown_submitted_a_b
  from processCommandHistory_effect [of "- 1" "shutdown submitted_a_b"]
  have 3: "map_option m_commandHistoryIndex
             (processCommandHistory (- 1) (shutdown submitted_a_b)) = Some 1"
    and 4: "map_option m_inputBuffer
             (processCommandHistory (- 1) (shutdown submitted_a_b)) = Some []"
    unfolding s w by auto
  from submitted_a_b_reached a 1 2 s 3 4 show ?thesis by blast
qed

text \<open>
  Claim C6, amended. \<open>processCommandHistory delta\<close> returns, leaves the history as it is
  and sets the history cursor to the \<^verbatim>\<open>int\<close> sum of \<open>i\<close> and \<open>delta\<close> clamped to \<open>[-1, L]\<close>:
  to \<open>i + delta\<close> clamped to \<open>[-1, L]\<close> whenever an \<^verbatim>\<open>int\<close> holds \<open>i + delta\<close>, as it does for
  the steps \<open>-1\<close> and \<open>+1\<close> of the arrow keys. Before shutdown, with a history of printable
  lines, the pending buffer becomes the entry at the new cursor when that lies in
  \<open>[0, L)\<close>, and empty at either boundary; after shutdown it becomes empty. Every console
  that a sequence of operations reaches from a new console has a history of printable
  lines. After \<open>a\<close> and \<open>b\<close> were submitted to a new console, going back recalls \<open>b\<close>, then
  \<open>a\<close>, then the empty line at the boundary \<open>-1\<close>, and stays there.
\<close>

theorem history_navigation:
  "(\<exists>c'. processCommandHistory delta c = Some c'
      \<and> m_commandHistoryIndex c'
          = min (max (- 1) (int_wrap (m_commandHistoryIndex c + delta)))
              (int (length (m_inputCommandHistory c)))
      \<and> (INT_MIN \<le> m_commandHistoryIndex c + delta \<and> m_commandHistoryIndex c + delta \<le> INT_MAX
           \<longrightarrow> m_commandHistoryIndex c'
                 = min (max (- 1) (m_commandHistoryIndex c + delta))
                     (int (length (m_inputCommandHistory c))))
      \<and> m_inputCommandHistory c' = m_inputCommandHistory c
      \<and> (\<not> m_shutdown c \<and> all_printable c \<longrightarrow>
            m_inputBuffer c' =
              (if 0 \<le> m_commandHistoryIndex c'
                  \<and> m_commandHistoryIndex c' < int (length (m_inputCommandHistory c))
               then m_inputCommandHistory c ! nat (m_commandHistoryIndex c') else []))
      \<and> (m_shutdown c \<longrightarrow> m_inputBuffer c' = []))
   \<and> (run ops GConsoleWindow = Some c \<longrightarrow> all_printable c)
   \<and> run [ProcessUserInputKey 97, ProcessUserInputEnterKey,
          ProcessUserInputKey 98, ProcessUserInputEnterKey] GConsoleWindow = Some submitted_a_b
   \<and> m_inputCommandHistory submitted_a_b = [''a'', ''b'']
   \<and> m_commandHistoryIndex submitted_a_b = 2
   \<and> (\<exists>c1 c2 c3 c4.
         processCommandHistory (- 1) submitted_a_b = Some c1
       \<and> m_commandHistoryIndex c1 = 1 \<and> m_inputBuffer c1 = ''b''
       \<and> processCommandHistory (- 1) c1 = Some c2
       \<and> m_commandHistoryIndex c2 = 0 \<and> m_inputBuffer c2 = ''a''
       \<and> processCommandHistory (- 1) c2 = Some c3
       \<and> m_commandHistoryIndex c3 = - 1 \<and> m_inputBuffer c3 = []
       \<and> processCommandHistory (- 1) c3 = Some c4
       \<and> m_commandHistoryIndex c4 = - 1 \<and> m_inputBuffer c4 = [])"
proof (intro conjI)
  from processCommandHistory_effect [of delta c] obtain c' where
    c': "processCommandHistory delta c = Some c'"
    "m_commandHistoryIndex c'
       = min (max (- 1) (int_wrap (m_commandHistoryIndex c + delta)))
           (int (length (m_inputCommandHistory c)))"
    "m_inputCommandHistory c' = m_inputCommandHistory c"
    "m_inputBuffer c' =
         (if m_shutdown c then []
          else if 0 \<le> m_commandHistoryIndex c' \<and> m_commandHistoryIndex c' < int (length (m_inputCommandHistory c))
          then filter printable (m_inputCommandHistory c ! nat (m_commandHistoryIndex c'))
          else [])"
    by blast
  have n: "m_commandHistoryIndex c'
             = min (max (- 1) (m_commandHistoryIndex c + delta))
                 (int (length (m_inputCommandHistory c)))"
    if "INT_MIN \<le> m_commandHistoryIndex c + delta \<and> m_commandHistoryIndex c + delta \<le> INT_MAX"
    using c'(2) int_wrap_id [of "m_commandHistoryIndex c + delta"] that by simp
  have b: "m_inputBuffer c' =
          (if 0 \<le> m_commandHistoryIndex c'
              \<and> m_commandHistoryIndex c' < int (length (m_inputCommandHistory c))
           then m_inputCommandHistory c ! nat (m_commandHistoryIndex c') else [])"
    if a: "\<not> m_shutdown c \<and> all_printable c"
  proof (cases "0 \<le> m_commandHistoryIndex c'
              \<and> m_commandHistoryIndex c' < int (length (m_inputCommandHistory c))")
    case False
    with c'(4) a show ?thesis by auto
  next
    case True
    then have "m_inputCommandHistory c ! nat (m_commandHistoryIndex c') \<in> set (m_inputCommandHistory c)"
      by (intro nth_mem) linarith
    with a have "list_all printable (m_inputCommandHistory c ! nat (m_commandHistoryIndex c'))"
      by (simp add: all_printable_def list_all_iff)
    from filter_printable_id [OF this] c'(4) a True show ?thesis by auto
  qed
  have e: "m_inputBuffer c' = []" if "m_shutdown c"
    using c'(4) that by simp
  from c'(1-3) n b e show "\<exists>c'. processCommandHistory delta c = Some c'
      \<and> m_commandHistoryIndex c'
          = min (max (- 1) (int_wrap (m_commandHistoryIndex c + delta)))
              (int (length (m_inputCommandHistory c)))
      \<and> (INT_MIN \<le> m_commandHistoryIndex c + delta \<and> m_commandHistoryIndex c + delta \<le> INT_MAX
           \<longrightarrow> m_commandHistoryIndex c'
                 = min (max (- 1) (m_commandHistoryIndex c + delta))
                     (int (length (m_inputCommandHistory c))))
      \<and> m_inputCommandHistory c' = m_inputCommandHistory c
      \<and> (\<not> m_shutdown c \<and> all_printable c \<longrightarrow>
            m_inputBuffer c' =
              (if 0 \<le> m_commandHistoryIndex c'
                  \<and> m_commandHistoryIndex c' < int (length (m_inputCommandHistory c))
               then m_inputCommandHistory c ! nat (m_commandHistoryIndex c') else []))
      \<and> (m_shutdown c \<longrightarrow> m_inputBuffer c' = [])"
    by blast
next
  show "run ops GConsoleWindow = Some c \<longrightarrow> all_printable c"
    using run_printable [of ops GConsoleWindow c] GConsoleWindow_printable by blast
next
  show "run [ProcessUserInputKey 97, ProcessUserInputEnterKey,
          ProcessUserInputKey 98, ProcessUserInputEnterKey] GConsoleWindow = Some submitted_a_b"
    by (rule submitted_a_b_reached)
next
  show "m_inputCommandHistory submitted_a_b = [''a'', ''b'']"
    by (simp add: submitted_a_b_def GConsoleWindow_def)
next
  show "m_commandHistoryIndex submitted_a_b = 2"
    by (simp add: submitted_a_b_def GConsoleWindow_def)
next
  have c0: "\<not> m_shutdown submitted_a_b" "m_inputCommandHistory submitted_a_b = [''a'', ''b'']"
    "m_commandHistoryIndex submitted_a_b = 2"
    by (simp_all add: submitted_a_b_def GConsoleWindow_def)
  from navigate_back [OF c0(1,2)] c0(3) obtain c1 where
    c1: "processCommandHistory (- 1) submitted_a_b = Some c1" "\<not> m_shutdown c1"
    "m_inputCommandHistory c1 = [''a'', ''b'']" "m_commandHistoryIndex c1 = 1"
    "m_inputBuffer c1 = ''b''" by auto
  from navigate_back [OF c1(2,3)] c1(4) obtain c2 where
    c2: "processCommandHistory (- 1) c1 = Some c2" "\<not> m_shutdown c2"
    "m_inputCommandHistory c2 = [''a'', ''b'']" "m_commandHistoryIndex c2 = 0"
    "m_inputBuffer c2 = ''a''" by auto
  from navigate_back [OF c2(2,3)] c2(4) obtain c3 where
    c3: "processCommandHistory (- 1) c2 = Some c3" "\<not> m_shutdown c3"
    "m_inputCommandHistory c3 = [''a'', ''b'']" "m_commandHistoryIndex c3 = - 1"
    "m_inputBuffer c3 = []" by auto
  from navigate_back [OF c3(2,3)] c3(4) obtain c4 where
    c4: "processCommandHistory (- 1) c3 = Some c4" "m_commandHistoryIndex c4 = - 1"
    "m_inputBuffer c4 = []" by auto
  from c1(1,4,5) c2(1,4,5) c3(1,4,5) c4
  show "\<exists>c1 c2 c3 c4.
         processCommandHistory (- 1) submitted_a_b = Some c1
       \<and> m_commandHistoryIndex c1 = 1 \<and> m_inputBuffer c1 = ''b''
       \<and> processCommandHistory (- 1) c1 = Some c2
       \<and> m_commandHistoryIndex c2 = 0 \<and> m_inputBuffer c2 = ''a''
       \<and> processCommandHistory (- 1) c2 = Some c3
       \<and> m_commandHistoryIndex c3 = - 1 \<and> m_inputBuffer c3 = []
       \<and> processCommandHistory (- 1) c3 = Some c4
       \<and> m_commandHistoryIndex c4 = - 1 \<and> m_inputBuffer c4 = []"
    by blast
qed

theorem history_navigation_witness:
  "run [LoadInputScript (Some [''1'', ''2'']), ProcessUserInputKey 120, ProcessUserInputEnterKey]
     GConsoleWindow = Some typed_before_script
   \<and> all_printable typed_before_script \<and> \<not> m_shutdown typed_before_script
   \<and> m_inputCommandHistory typed_before_script = [''x'']
   \<and> m_commandHistoryIndex typed_before_script = 1
   \<and> INT_MIN \<le> m_commandHistoryIndex typed_before_script + - 1
   \<and> m_commandHistoryIndex typed_before_script + - 1 \<le> INT_MAX
   \<and> (\<exists>c'. processCommandHistory (- 1) typed_before_script = Some c'
          \<and> m_commandHistoryIndex c' = 0 \<and> m_inputBuffer c' = ''x'')
   \<and> m_shutdown (shutdown submitted_a_b)
   \<and> (\<exists>c'. processCommandHistory (- 1) (shutdown submitted_a_b) = Some c'
          \<and> m_inputBuffer c' = [])"
proof -
  let ?ops = "[LoadInputScript (Some [''1'', ''2'']), ProcessUserInputKey 120,
               ProcessUserInputEnterKey]"
  note T = history_navigation [of "- 1" typed_before_script ?ops]
  note S = history_navigation [of "- 1" "shutdown submitted_a_b" ?ops]
  have f: "\<not> m_shutdown typed_before_script" "m_inputCommandHistory typed_before_script = [''x'']"
    "m_commandHistoryIndex typed_before_script = 1"
    by (simp_all add: typed_before_script_def GConsoleWindow_def)
  have r: "INT_MIN \<le> m_commandHistoryIndex typed_before_script + - 1"
    "m_commandHistoryIndex typed_before_script + - 1 \<le> INT_MAX"
    by (simp_all add: f INT_MIN_def INT_MAX_def)
  from T typed_before_script_reached have p: "all_printable typed_before_script" by blast
  from T obtain c' where c': "processCommandHistory (- 1) typed_before_script = Some c'"
    "INT_MIN \<le> m_commandHistoryIndex typed_before_script + - 1
       \<and> m_commandHistoryIndex typed_before_script + - 1 \<le> INT_MAX
     \<longrightarrow> m_commandHistoryIndex c'
          = min (max (- 1) (m_commandHistoryIndex typed_before_script + - 1))
              (int (length (m_inputCommandHistory typed_before_script)))"
    "\<not> m_shutdown typed_before_script \<and> all_printable typed_before_script \<longrightarrow>
            m_inputBuffer c' =
              (if 0 \<le> m_commandHistoryIndex c'
                  \<and> m_commandHistoryIndex c' < int (length (m_inputCommandHistory typed_before_script))
               then m_inputCommandHistory typed_before_script ! nat (m_commandHistoryIndex c') else [])"
    by blast
  have i: "m_commandHistoryIndex c' = 0" using c'(2) r f by simp
  have b: "m_inputBuffer c' = ''x''" using c'(3) f p i by simp
  have d: "m_shutdown (shutdown submitted_a_b)" by (rule shutdown_submitted_a_b(1))
  from S d have e: "\<exists>c'. processCommandHistory (- 1) (shutdown submitted_a_b) = Some c'
          \<and> m_inputBuffer c' = []" by blast
  from typed_before_script_reached p f r c'(1) i b d e show ?thesis by blast
qed

section \<open>Threads that print at once\<close>

lemma concat_update_sum:
  fixes f :: "'a \<Rightarrow> nat"
  shows "i < length tss \<Longrightarrow> tss ! i = x # rest \<Longrightarrow>
   sum_list (map f (concat tss)) = f x + sum_list (map f (concat (tss[i := rest])))"
proof (induction tss arbitrary: i)
  case Nil
  then show ?case by simp
next
  case (Cons t tss)
  show ?case
  proof (cases i)
    case 0
    with Cons.prems show ?thesis by simp
  next
    case (Suc j)
    with Cons.prems have "j < length tss" "tss ! j = x # rest" by simp_all
    from Cons.IH [OF this] Suc show ?thesis by simp
  qed
qed

lemma interleaving_sum:
  fixes f :: "'a \<Rightarrow> nat"
  shows "interleaving tss xs \<Longrightarrow> sum_list (map f xs) = sum_list (map f (concat tss))"
proof (induction rule: interleaving.induct)
  case (interleaving_done tss)
  then show ?case by (simp del: concat_eq_Nil_conv)
next
  case (interleaving_next i tss x rest xs)
  from concat_update_sum [OF interleaving_next(1,2), of f] interleaving_next(4)
  show ?case by simp
qed

lemma print_turn_live:
  "print_turn t s = Some s' \<Longrightarrow> m_shutdown (shared s') = m_shutdown (shared s)"
  by (cases t)
     (auto simp: print_echo_def print_closure_def split: if_splits list.splits prod.splits)

lemma print_turns_log:
  "print_turns sched s = Some s' \<Longrightarrow> \<not> m_shutdown (shared s) \<Longrightarrow>
   concat (callers s') = [] \<Longrightarrow> posted s' = [] \<Longrightarrow>
   \<exists>calls. interleaving (callers s) calls
     \<and> getAllOutput (shared s') =
         getAllOutput (shared s) @ concat (map fst (posted s))
           @ concat (map (\<lambda>call. clean_line_breaks (fst call)) calls)"
proof (induction sched arbitrary: s)
  case Nil
  then have "interleaving (callers s) []" by (auto intro: interleaving_done)
  with Nil show ?case by (intro exI [of _ "[]"]) simp
next
  case (Cons t sched)
  from Cons.prems(1) obtain s1 where t: "print_turn t s = Some s1"
    and r: "print_turns sched s1 = Some s'"
    by (auto split: option.splits)
  have live: "\<not> m_shutdown (shared s1)" using print_turn_live [OF t] Cons.prems(2) by simp
  from Cons.IH [OF r live Cons.prems(3,4)] obtain calls where
    i: "interleaving (callers s1) calls"
    and l: "getAllOutput (shared s') =
         getAllOutput (shared s1) @ concat (map fst (posted s1))
           @ concat (map (\<lambda>call. clean_line_breaks (fst call)) calls)"
    by blast
  show ?case
  proof (cases t)
    case GuiThread
    with t obtain strToPrint isStdErr rest where p: "posted s = (strToPrint, isStdErr) # rest"
      and s1: "s1 = s\<lparr>posted := rest, shared := print_closure strToPrint isStdErr (shared s)\<rparr>"
      by (auto split: list.splits)
    have "getAllOutput (shared s1) = getAllOutput (shared s) @ strToPrint"
      by (simp add: s1 print_closure_def getAllOutput_def)
    with i l p s1 show ?thesis by (intro exI [of _ calls]) simp
  next
    case (Caller k)
    with t Cons.prems(2) obtain str isStdErr rest where
      k: "k < length (callers s)" "callers s ! k = (str, isStdErr) # rest"
      and s1: "s1 = s\<lparr>callers := (callers s)[k := rest],
                      posted := posted s @ [(clean_line_breaks str, isStdErr)],
                      shared := print_echo str isStdErr (shared s)\<rparr>"
      by (auto split: if_splits list.splits)
    have g: "getAllOutput (shared s1) = getAllOutput (shared s)"
      by (simp add: s1 print_echo_def getAllOutput_def)
    have "interleaving (callers s) ((str, isStdErr) # calls)"
      using i k by (intro interleaving_next [of k _ _ rest]) (simp_all add: s1)
    with l g s1 show ?thesis by (intro exI [of _ "(str, isStdErr) # calls"]) simp
  qed
qed

text \<open>
  Claim C4, as stated, fails already for one thread and one call: \<open>print\<close> of a carriage
  return and a line feed appends one line feed, so the output log is one character long
  where the printed input is two.
\<close>

theorem log_shorter_than_inputs_counterexample:
  "\<exists>s'. print_turns [Caller 0, GuiThread]
           \<lparr>callers = [[([CR, LF], False)]], posted = [], shared = GConsoleWindow\<rparr> = Some s'
      \<and> concat (callers s') = [] \<and> posted s' = []
      \<and> getAllOutput (shared s') = [LF]
      \<and> length (getAllOutput (shared s')) = 1
      \<and> length [CR, LF] = 2"
  by (simp add: print_echo_def print_closure_def getAllOutput_def GConsoleWindow_def
      clean_line_breaks_normalize)

text \<open>
  Claim C4, amended. Threads print concurrently on a console that is not shut down, under
  any schedule of the callers and the GUI thread that lets every call and every posted
  closure run. Then the output log has grown by the texts of some interleaving of the
  threads' calls, each text whole, once, with its line endings cleaned; and its length has
  grown by the sum of the lengths of the cleaned texts.
\<close>

theorem concurrent_prints_interleave_whole:
  assumes "print_turns sched \<lparr>callers = tss, posted = [], shared = c\<rparr> = Some s'"
    and "\<not> m_shutdown c" and "concat (callers s') = []" and "posted s' = []"
  shows "\<exists>calls. interleaving tss calls
     \<and> getAllOutput (shared s') =
         getAllOutput c @ concat (map (\<lambda>call. normalize_line_endings (fst call)) calls)
     \<and> length (getAllOutput (shared s')) =
         length (getAllOutput c)
           + sum_list (map (\<lambda>call. length (normalize_line_endings (fst call))) (concat tss))"
proof -
  from print_turns_log [OF assms(1)] assms(2-4) obtain calls where
    i: "interleaving tss calls"
    and l: "getAllOutput (shared s') =
         getAllOutput c @ concat (map (\<lambda>call. normalize_line_endings (fst call)) calls)"
    by (auto simp: clean_line_breaks_normalize)
  have "length (concat (map (\<lambda>call. normalize_line_endings (fst call)) calls))
          = sum_list (map (\<lambda>call. length (normalize_line_endings (fst call))) calls)"
    by (simp add: length_concat comp_def)
  also have "\<dots> = sum_list (map (\<lambda>call. length (normalize_line_endings (fst call))) (concat tss))"
    by (rule interleaving_sum [OF i])
  finally show ?thesis using i l by (intro exI [of _ calls]) simp
qed

theorem concurrent_prints_interleave_whole_witness:
  "\<exists>s'. print_turns [Caller 0, Caller 1, GuiThread, Caller 1, GuiThread, GuiThread]
           \<lparr>callers = [[([CHR ''a'', CR, LF], False)], [(''b'', True), (''c'', False)]],
            posted = [], shared = GConsoleWindow\<rparr> = Some s'
      \<and> \<not> m_shutdown GConsoleWindow
      \<and> concat (callers s') = [] \<and> posted s' = []
      \<and> getAllOutput (shared s') = [CHR ''a'', LF, CHR ''b'', CHR ''c'']
      \<and> (\<exists>calls. interleaving [[([CHR ''a'', CR, LF], False)], [(''b'', True), (''c'', False)]] calls
            \<and> getAllOutput (shared s') =
                getAllOutput GConsoleWindow
                  @ concat (map (\<lambda>call. normalize_line_endings (fst call)) calls))
      \<and> length (getAllOutput (shared s')) = 4"
proof -
  let ?tss = "[[([CHR ''a'', CR, LF], False)], [(''b'', True), (''c'', False)]]"
  let ?sched = "[Caller 0, Caller 1, GuiThread, Caller 1, GuiThread, GuiThread]"
  have live: "\<not> m_shutdown GConsoleWindow" by (simp add: GConsoleWindow_def)
  have "\<exists>s'. print_turns ?sched \<lparr>callers = ?tss, posted = [], shared = GConsoleWindow\<rparr> = Some s'
      \<and> concat (callers s') = [] \<and> posted s' = []
      \<and> getAllOutput (shared s') = [CHR ''a'', LF, CHR ''b'', CHR ''c'']"
    by (simp add: print_echo_def print_closure_def getAllOutput_def GConsoleWindow_def
        clean_line_breaks_normalize CR_def LF_def)
  then obtain s' where
    s': "print_turns ?sched \<lparr>callers = ?tss, posted = [], shared = GConsoleWindow\<rparr> = Some s'"
    "concat (callers s') = []" "posted s' = []"
    "getAllOutput (shared s') = [CHR ''a'', LF, CHR ''b'', CHR ''c'']"
    by blast
  from concurrent_prints_interleave_whole [OF s'(1) live s'(2) s'(3)]
  obtain calls where "interleaving ?tss calls"
    "getAllOutput (shared s') =
       getAllOutput GConsoleWindow @ concat (map (\<lambda>call. normalize_line_endings (fst call)) calls)"
    by blast
  moreover have "length (getAllOutput (shared s')) = 4" using s'(4) by simp
  ultimately show ?thesis using s' live by blast
qed

end
